theory Spec2Isabelle
  imports Main "HOL-Library.Sublist"
begin

section \<open>Text: Python strings as lists of code points\<close>

text \<open>
  The crawlers work on Python \<^verbatim>\<open>str\<close> values, whose elements are Unicode code points
  (Hangul syllables, bullet glyphs). A string is therefore a list of code points, each a
  natural number; \<^verbatim>\<open>len\<close> is \<open>length\<close>, \<^verbatim>\<open>+\<close> is \<open>@\<close>. Code point 10 is the line
  feed, 32 the space.
\<close>

type_synonym ustr = "nat list"

named_theorems model_defs "unfolding rules of the embedded functions"

text \<open>
  \<^verbatim>\<open>str.isspace\<close> for one code point, which is also the class \<^verbatim>\<open>\s\<close> of \<^verbatim>\<open>re\<close> on
  \<^verbatim>\<open>str\<close> patterns: U+0009..U+000D, U+001C..U+0020, U+0085, U+00A0, U+1680,
  U+2000..U+200A, U+2028, U+2029, U+202F, U+205F, U+3000.
\<close>

definition is_space :: "nat \<Rightarrow> bool" where
  [model_defs]: "is_space c \<longleftrightarrow>
     (9 \<le> c \<and> c \<le> 13) \<or> (28 \<le> c \<and> c \<le> 32) \<or> c = 133 \<or> c = 160 \<or> c = 5760 \<or>
     (8192 \<le> c \<and> c \<le> 8202) \<or> c = 8232 \<or> c = 8233 \<or> c = 8239 \<or> c = 8287 \<or> c = 12288"

text \<open>
  The class \<^verbatim>\<open>\d\<close> of \<^verbatim>\<open>re\<close> on \<^verbatim>\<open>str\<close> patterns: the decimal digits of Unicode
  (category Nd, Unicode 14): sixty-one blocks of ten consecutive code points and the
  mathematical digits U+1D7CE..U+1D7FF.
\<close>

definition nd_blocks :: "nat list" where
  [model_defs]: "nd_blocks = [48, 1632, 1776, 1984, 2406, 2534, 2662, 2790, 2918, 3046, 3174,
     3302, 3430, 3558, 3664, 3792, 3872, 4160, 4240, 6112, 6160, 6470, 6608, 6784, 6800, 6992,
     7088, 7232, 7248, 42528, 43216, 43264, 43472, 43504, 43600, 44016, 65296, 66720, 68912,
     69734, 69872, 69942, 70096, 70384, 70736, 70864, 71248, 71360, 71472, 71904, 72016, 72784,
     73040, 73120, 92768, 92864, 93008, 123200, 123632, 125264, 130032]"

definition is_decimal :: "nat \<Rightarrow> bool" where
  [model_defs]: "is_decimal c \<longleftrightarrow>
     list_ex (\<lambda>b. b \<le> c \<and> c \<le> b + 9) nd_blocks \<or> (120782 \<le> c \<and> c \<le> 120831)"

text \<open>The class \<^verbatim>\<open>[A-Za-z]\<close> and the Hangul syllables \<^verbatim>\<open>[U+AC00-U+D7A3]\<close>.\<close>

definition ascii_letter :: "nat \<Rightarrow> bool" where
  [model_defs]: "ascii_letter c \<longleftrightarrow> (65 \<le> c \<and> c \<le> 90) \<or> (97 \<le> c \<and> c \<le> 122)"

definition hangul :: "nat \<Rightarrow> bool" where
  [model_defs]: "hangul c \<longleftrightarrow> 44032 \<le> c \<and> c \<le> 55203"

text \<open>
  \<^verbatim>\<open>ZERO_WIDTH\<close>: the class of U+200B, U+200C, U+200D, U+2060 and U+FEFF, and
  \<^verbatim>\<open>ZERO_WIDTH.sub("", s)\<close>.
\<close>

definition zero_width :: "nat \<Rightarrow> bool" where
  [model_defs]: "zero_width c \<longleftrightarrow> c = 8203 \<or> c = 8204 \<or> c = 8205 \<or> c = 8288 \<or> c = 65279"

definition remove_zero_width :: "ustr \<Rightarrow> ustr" where
  [model_defs]: "remove_zero_width s = filter (\<lambda>c. \<not> zero_width c) s"

text \<open>
  \<^verbatim>\<open>s.replace(NBSP, " ").replace(IDEOGRAPHIC_SPACE, " ")\<close>: U+00A0 and U+3000 become
  an ordinary space.
\<close>

definition replace_nbsp :: "ustr \<Rightarrow> ustr" where
  [model_defs]: "replace_nbsp s = map (\<lambda>c. if c = 160 \<or> c = 12288 then 32 else c) s"

text \<open>
  \<^verbatim>\<open>s.lstrip(chars)\<close>, \<^verbatim>\<open>s.rstrip(chars)\<close>, \<^verbatim>\<open>s.strip(chars)\<close> for a set of characters given
  as a predicate; without an argument Python strips the \<^verbatim>\<open>str.isspace\<close> characters.
\<close>

definition lstrip_chars :: "(nat \<Rightarrow> bool) \<Rightarrow> ustr \<Rightarrow> ustr" where
  [model_defs]: "lstrip_chars P s = dropWhile P s"

definition rstrip_chars :: "(nat \<Rightarrow> bool) \<Rightarrow> ustr \<Rightarrow> ustr" where
  [model_defs]: "rstrip_chars P s = rev (dropWhile P (rev s))"

definition strip_chars :: "(nat \<Rightarrow> bool) \<Rightarrow> ustr \<Rightarrow> ustr" where
  [model_defs]: "strip_chars P s = rstrip_chars P (lstrip_chars P s)"

definition lstrip :: "ustr \<Rightarrow> ustr" where
  [model_defs]: "lstrip s = lstrip_chars is_space s"

definition rstrip :: "ustr \<Rightarrow> ustr" where
  [model_defs]: "rstrip s = rstrip_chars is_space s"

definition strip :: "ustr \<Rightarrow> ustr" where
  [model_defs]: "strip s = strip_chars is_space s"

text \<open>\<^verbatim>\<open>re.sub(r"\s+", "", s)\<close>: every whitespace character is deleted.\<close>

definition remove_spaces :: "ustr \<Rightarrow> ustr" where
  [model_defs]: "remove_spaces s = filter (\<lambda>c. \<not> is_space c) s"

text \<open>\<^verbatim>\<open>w in s\<close> for strings: \<open>w\<close> occurs in \<open>s\<close> as a contiguous block.\<close>

fun py_in :: "ustr \<Rightarrow> ustr \<Rightarrow> bool" where
  "py_in w [] = (w = [])"
| "py_in w (c # cs) = (prefix w (c # cs) \<or> py_in w cs)"

text \<open>\<^verbatim>\<open>any(w in s for w in ws)\<close> and \<^verbatim>\<open>s.startswith(ws)\<close> for a tuple \<open>ws\<close>.\<close>

definition any_in :: "ustr list \<Rightarrow> ustr \<Rightarrow> bool" where
  [model_defs]: "any_in ws s = list_ex (\<lambda>w. py_in w s) ws"

definition startswith_any :: "ustr list \<Rightarrow> ustr \<Rightarrow> bool" where
  [model_defs]: "startswith_any ws s = list_ex (\<lambda>w. prefix w s) ws"

text \<open>\<^verbatim>\<open>sep.join(parts)\<close>\<close>

fun py_join :: "ustr \<Rightarrow> ustr list \<Rightarrow> ustr" where
  "py_join sep [] = []"
| "py_join sep [x] = x"
| "py_join sep (x # y # ys) = x @ sep @ py_join sep (y # ys)"

text \<open>
  \<^verbatim>\<open>s.splitlines()\<close>: a line ends at LF, VT, FF, CR, FS, GS, RS, U+0085, U+2028 or U+2029,
  CR LF counts as one line end, and no empty last line is produced. The flag says that the
  previous character was a CR.
\<close>

definition is_linebreak :: "nat \<Rightarrow> bool" where
  [model_defs]: "is_linebreak c \<longleftrightarrow> c \<in> set [10, 11, 12, 13, 28, 29, 30, 133, 8232, 8233]"

fun splitlines_aux :: "bool \<Rightarrow> ustr \<Rightarrow> ustr \<Rightarrow> ustr list" where
  "splitlines_aux cr cur [] = (if cur = [] then [] else [cur])"
| "splitlines_aux cr cur (c # cs) =
     (if cr \<and> c = 10 then splitlines_aux False cur cs
      else if is_linebreak c then cur # splitlines_aux (c = 13) [] cs
      else splitlines_aux False (cur @ [c]) cs)"

definition splitlines :: "ustr \<Rightarrow> ustr list" where
  [model_defs]: "splitlines s = splitlines_aux False [] s"

text \<open>
  \<^verbatim>\<open>lines = [ln.strip() for ln in text.splitlines() if ln.strip()]\<close>, the first statement of
  every \<^verbatim>\<open>split_items\<close>.
\<close>

definition norm_lines :: "ustr \<Rightarrow> ustr list" where
  [model_defs]: "norm_lines text = filter (\<lambda>l. l \<noteq> []) (map strip (splitlines text))"

text \<open>
  Regular expressions are embedded by what they decide at the start of a suffix of the
  subject. \<^verbatim>\<open>re.search(p, s)\<close> succeeds when \<open>p\<close> matches at the start of some suffix, and
  \<^verbatim>\<open>re.split(p, s)[0]\<close> is the text before the leftmost such suffix (all of \<open>s\<close> when there
  is none). No pattern used this way matches the empty string.
\<close>

fun re_search :: "(ustr \<Rightarrow> bool) \<Rightarrow> ustr \<Rightarrow> bool" where
  "re_search P [] = P []"
| "re_search P (c # cs) = (P (c # cs) \<or> re_search P cs)"

fun re_split_head :: "(ustr \<Rightarrow> bool) \<Rightarrow> ustr \<Rightarrow> ustr" where
  "re_split_head P [] = []"
| "re_split_head P (c # cs) = (if P (c # cs) then [] else c # re_split_head P cs)"

text \<open>A literal followed by \<^verbatim>\<open>\s*\<close> and a second literal, at the start of \<open>s\<close>.\<close>

definition lit_ws_lit :: "ustr \<Rightarrow> ustr \<Rightarrow> ustr \<Rightarrow> bool" where
  [model_defs]: "lit_ws_lit a b s \<longleftrightarrow> prefix a s \<and> prefix b (dropWhile is_space (drop (length a) s))"

section \<open>Keyword-inclusion classifier (junggu.py, liveinkorea.py)\<close>

text \<open>
  The characters deleted by the first \<^verbatim>\<open>re.sub\<close> of \<^verbatim>\<open>normalize_key\<close>: black and white
  star, bullet, middle dot, the triangles U+25B6 and U+25B7, black square, white and black
  circle, the reference mark U+203B, and \<^verbatim>\<open>- = + ( ) [ ] { } < >\<close>.
\<close>

definition kw_symbol :: "nat \<Rightarrow> bool" where
  [model_defs]: "kw_symbol c \<longleftrightarrow> c \<in> set [9733, 9734, 8226, 183, 9654, 9655, 9632, 9675, 9679,
     8251, 45, 61, 43, 40, 41, 91, 93, 123, 125, 60, 62]"

definition digit_or_colon :: "nat \<Rightarrow> bool" where
  [model_defs]: "digit_or_colon c \<longleftrightarrow> c = 58 \<or> (48 \<le> c \<and> c \<le> 57)"

text \<open>
  \<^verbatim>\<open>re.sub(r"[:0-9].*$", "", k)\<close>. The dot does not match a line feed and \<^verbatim>\<open>$\<close> matches at
  the end of the string or before a line feed that ends it. So the pattern matches at a
  colon or ASCII digit exactly when no line feed follows other than as the last character;
  the match runs to the end, a final line feed apart.
\<close>

fun cut_digit_colon :: "ustr \<Rightarrow> ustr" where
  "cut_digit_colon [] = []"
| "cut_digit_colon (c # cs) =
     (if digit_or_colon c \<and> 10 \<notin> set (butlast cs)
      then (if cs \<noteq> [] \<and> last cs = 10 then [10] else [])
      else c # cut_digit_colon cs)"

text \<open>
  \<^verbatim>\<open>normalize_key\<close> of junggu.py (lines 36-44); liveinkorea.py (lines 38-44) has the same
  function.
\<close>

definition normalize_key :: "ustr \<Rightarrow> ustr" where
  [model_defs]: "normalize_key k =
     strip (cut_digit_colon (remove_spaces (filter (\<lambda>c. \<not> kw_symbol c)
       (replace_nbsp (remove_zero_width k)))))"

text \<open>
  The canonical keys of junggu.py are the strings \<^verbatim>\<open>"target"\<close>, \<^verbatim>\<open>"period"\<close>,
  \<^verbatim>\<open>"method"\<close>, \<^verbatim>\<open>"contact"\<close>, \<^verbatim>\<open>"location"\<close> and \<^verbatim>\<open>"content"\<close>.
\<close>

datatype kw_key = Target | Period | Method | Contact | Location | Content

text \<open>
  \<^verbatim>\<open>auto_map_key\<close> of junggu.py (lines 48-62): the first keyword group with a word that
  occurs in the normalized key decides; \<^verbatim>\<open>None\<close> when no group has one. The words are
  Hangul, written here by code point: daesang, jagyeok; gigan, ilsi, sigan, gihan, iljeong;
  bangbeop, geumaek; munui, yeollakcheo, jeonhwabeonho, damdang, jeopsu; jangso, wichi,
  jiyeok, unyeongjangso, hyeonhwang; naeyong, sogae, gaeyo, seolmyeong, bojangnaeyong,
  jiwonnaeyong, saeomnaeyong.
\<close>

definition auto_map_key :: "ustr \<Rightarrow> kw_key option" where
  [model_defs]: "auto_map_key pre_norm =
     (if any_in [[45824, 49345], [51088, 44201]] pre_norm then Some Target
      else if any_in [[44592, 44036], [51068, 49884], [49884, 44036], [44592, 54620],
                      [51068, 51221]] pre_norm then Some Period
      else if any_in [[48169, 48277], [44552, 50529]] pre_norm then Some Method
      else if any_in [[47928, 51032], [50672, 46973, 52376], [51204, 54868, 48264, 54840],
                      [45812, 45817], [51217, 49688]] pre_norm then Some Contact
      else if any_in [[51109, 49548], [50948, 52824], [51648, 50669],
                      [50868, 50689, 51109, 49548], [54788, 54889]] pre_norm then Some Location
      else if any_in [[45236, 50857], [49548, 44060], [44060, 50836], [49444, 47749],
                      [48372, 51109, 45236, 50857], [51648, 50896, 45236, 50857],
                      [49324, 50629, 45236, 50857]] pre_norm then Some Content
      else None)"

section \<open>Field accumulator of junggu.py (keyword-inclusion strategy)\<close>

text \<open>
  \<^verbatim>\<open>re.sub(r"&nbsp;?", " ", text)\<close>: every occurrence of \<^verbatim>\<open>&nbsp\<close>, with the semicolon
  when one follows, becomes one space; the scan goes on after the occurrence.
\<close>

fun sub_nbsp :: "ustr \<Rightarrow> ustr" where
  "sub_nbsp [] = []"
| "sub_nbsp (c # cs) =
     (if prefix [38, 110, 98, 115, 112, 59] (c # cs) then 32 # sub_nbsp (drop 5 cs)
      else if prefix [38, 110, 98, 115, 112] (c # cs) then 32 # sub_nbsp (drop 4 cs)
      else c # sub_nbsp cs)"

text \<open>
  The accumulator is the dictionary \<^verbatim>\<open>fields\<close> with the two variables
  \<^verbatim>\<open>current_section\<close> and \<^verbatim>\<open>locked_section\<close> of \<^verbatim>\<open>parse_detail_lines_to_fields\<close>
  (junggu.py, lines 160-253); the field of the dictionary is named \<open>kw_fields\<close>.
\<close>

record kw_state =
  kw_fields :: "kw_key \<Rightarrow> ustr option"
  current_section :: "kw_key option"
  locked_section :: "kw_key option"

definition kw_init :: kw_state where
  [model_defs]: "kw_init = \<lparr>kw_fields = Map.empty, current_section = None, locked_section = None\<rparr>"

text \<open>\<^verbatim>\<open>fields.get(k, "")\<close>\<close>

definition get_field :: "('k \<Rightarrow> ustr option) \<Rightarrow> 'k \<Rightarrow> ustr" where
  [model_defs]: "get_field f k = (case f k of None \<Rightarrow> [] | Some v \<Rightarrow> v)"

text \<open>
  \<^verbatim>\<open>fields[k] = f"{fields.get(k, '')} / {v}".strip(" /")\<close>: the old value, the separator
  \<^verbatim>\<open>" / "\<close> and the new text, with spaces and slashes stripped from both ends of the whole.
\<close>

definition slash_or_space :: "nat \<Rightarrow> bool" where
  [model_defs]: "slash_or_space c \<longleftrightarrow> c = 32 \<or> c = 47"

definition kw_joined :: "ustr \<Rightarrow> ustr \<Rightarrow> ustr" where
  [model_defs]: "kw_joined old v = strip_chars slash_or_space (old @ [32, 47, 32] @ v)"

definition kw_append :: "(kw_key \<Rightarrow> ustr option) \<Rightarrow> kw_key \<Rightarrow> ustr \<Rightarrow> (kw_key \<Rightarrow> ustr option)" where
  [model_defs]: "kw_append f k v = f(k \<mapsto> kw_joined (get_field f k) v)"

text \<open>
  Locked state (lines 172-192). \<^verbatim>\<open>check_key\<close> is the text without its leading run of
  whitespace and of the glyphs white circle, black circle, reference mark, hyphen, en dash,
  bullet, middle dot, bullet operator, dot operator, white star and the two triangles; the
  candidate key is \<^verbatim>\<open>check_key.split(":", 1)[0].split("-", 1)[0]\<close>.
\<close>

definition lead_glyph :: "nat \<Rightarrow> bool" where
  [model_defs]: "lead_glyph c \<longleftrightarrow> is_space c \<or>
     c \<in> set [9675, 9679, 8251, 45, 8211, 8226, 183, 8729, 8901, 9734, 9654, 9655]"

definition locked_key :: "ustr \<Rightarrow> kw_key option" where
  [model_defs]: "locked_key text =
     auto_map_key (normalize_key
       (takeWhile (\<lambda>c. c \<noteq> 45) (takeWhile (\<lambda>c. c \<noteq> 58) (dropWhile lead_glyph text))))"

text \<open>
  The delimiters \<^verbatim>\<open>[:\<dots>\-\<dots>]\<close> of line 184: colon, fullwidth colon U+FF1A, hyphen, en
  dash U+2013. After \<^verbatim>\<open>re.split(\<dots>, text, maxsplit=1)\<close> the value is \<^verbatim>\<open>parts[1].strip()\<close>,
  the text after the first delimiter, and the empty string when the text has none.
\<close>

definition delimiter :: "nat \<Rightarrow> bool" where
  [model_defs]: "delimiter c \<longleftrightarrow> c = 58 \<or> c = 65306 \<or> c = 45 \<or> c = 8211"

definition value_after_delimiter :: "ustr \<Rightarrow> ustr" where
  [model_defs]: "value_after_delimiter text =
     (if list_ex delimiter text then strip (tl (dropWhile (\<lambda>c. \<not> delimiter c) text)) else [])"

text \<open>
  Unlocked state, the bullet (lines 196-204). A text that starts, after whitespace, with
  the reference mark U+203B is only stripped. From any other text the pattern of line 201
  removes leading whitespace, one bullet glyph and the whitespace after it, when a Hangul
  syllable, an ASCII letter or an ASCII digit follows, with or without an opening
  parenthesis before it.
\<close>

definition bullet_glyph :: "nat \<Rightarrow> bool" where
  [model_defs]: "bullet_glyph c \<longleftrightarrow> c \<in> set [9654, 9655, 9675, 9679, 9633, 9632, 9670, 9671,
     9734, 45, 8211, 8226, 183, 8729, 8901, 9702, 10061]"

definition word_start :: "nat \<Rightarrow> bool" where
  [model_defs]: "word_start c \<longleftrightarrow> hangul c \<or> ascii_letter c \<or> (48 \<le> c \<and> c \<le> 57)"

definition strip_bullet :: "ustr \<Rightarrow> ustr" where
  [model_defs]: "strip_bullet text =
     (case dropWhile is_space text of
        [] \<Rightarrow> text
      | b # r \<Rightarrow>
          if bullet_glyph b then
            (case dropWhile is_space r of
               [] \<Rightarrow> text
             | x # y \<Rightarrow>
                 if word_start x \<or> (x = 40 \<and> (case y of [] \<Rightarrow> False | z # _ \<Rightarrow> word_start z))
                 then x # y else text)
          else text)"

definition kw_stripped :: "ustr \<Rightarrow> ustr" where
  [model_defs]: "kw_stripped text =
     (if prefix [8251] (lstrip text) then strip text else strip (strip_bullet text))"

text \<open>
  Check (1), lines 208-220: a text with a colon or a fullwidth colon is split at the first
  one; when the key part maps to a canonical key the contribution is
  \<^verbatim>\<open>f"{key.strip()} : {val.strip()}"\<close>.
\<close>

definition colon :: "nat \<Rightarrow> bool" where
  [model_defs]: "colon c \<longleftrightarrow> c = 58 \<or> c = 65306"

definition colon_classify :: "ustr \<Rightarrow> (kw_key \<times> ustr) option" where
  [model_defs]: "colon_classify stripped =
     (if list_ex colon stripped then
        (case auto_map_key (normalize_key (takeWhile (\<lambda>c. \<not> colon c) stripped)) of
           None \<Rightarrow> None
         | Some mapped \<Rightarrow>
             Some (mapped, strip (takeWhile (\<lambda>c. \<not> colon c) stripped) @ [32, 58, 32] @
                           strip (tl (dropWhile (\<lambda>c. \<not> colon c) stripped))))
      else None)"

text \<open>
  Check (2), lines 224-237: \<^verbatim>\<open>re.match(r"^([H\s]+?)\s*[-\<dots>]\s*(.+)$", stripped)\<close> where
  \<open>H\<close> stands for the Hangul syllables and the dash is a hyphen or an en dash. The dash is
  not of the class of the first group, so it is the first character outside that class and
  at least one character stands before it. The lazy group is the text before the dash
  without its trailing whitespace (one character at least). The second group is what
  follows the dash and its whitespace: not empty and without a line feed. The subject is
  the result of \<^verbatim>\<open>strip()\<close>, so it ends with no whitespace and \<^verbatim>\<open>$\<close> is its end.
\<close>

definition dash :: "nat \<Rightarrow> bool" where
  [model_defs]: "dash c \<longleftrightarrow> c = 45 \<or> c = 8211"

definition hangul_or_space :: "nat \<Rightarrow> bool" where
  [model_defs]: "hangul_or_space c \<longleftrightarrow> hangul c \<or> is_space c"

definition dash_match :: "ustr \<Rightarrow> (ustr \<times> ustr) option" where
  [model_defs]: "dash_match s =
     (case dropWhile hangul_or_space s of
        [] \<Rightarrow> None
      | d # after \<Rightarrow>
          if dash d \<and> takeWhile hangul_or_space s \<noteq> [] \<and> dropWhile is_space after \<noteq> [] \<and>
             10 \<notin> set (dropWhile is_space after)
          then Some (if rstrip (takeWhile hangul_or_space s) = []
                     then take 1 (takeWhile hangul_or_space s)
                     else rstrip (takeWhile hangul_or_space s),
                     dropWhile is_space after)
          else None)"

definition dash_classify :: "ustr \<Rightarrow> (kw_key \<times> ustr) option" where
  [model_defs]: "dash_classify stripped =
     (case dash_match stripped of
        None \<Rightarrow> None
      | Some (key, val) \<Rightarrow>
          (case auto_map_key (normalize_key key) of
             None \<Rightarrow> None
           | Some mapped \<Rightarrow> Some (mapped, strip key @ [32, 45, 32] @ strip val)))"

text \<open>
  The three classification checks of the unlocked state in their order: key and value at
  a colon, key and value at a dash, bare header (check (3), lines 241-247, which
  contributes no value). The result is the canonical key and the contribution, if any.
\<close>

definition kw_classify :: "ustr \<Rightarrow> (kw_key \<times> ustr option) option" where
  [model_defs]: "kw_classify stripped =
     (case colon_classify stripped of
        Some (mapped, v) \<Rightarrow> Some (mapped, Some v)
      | None \<Rightarrow>
          (case dash_classify stripped of
             Some (mapped, v) \<Rightarrow> Some (mapped, Some v)
           | None \<Rightarrow>
               (case auto_map_key (normalize_key stripped) of
                  Some mapped \<Rightarrow> Some (mapped, None)
                | None \<Rightarrow> None)))"

text \<open>
  The text the loop works on: the raw line without zero-width marks, stripped (a line that
  is empty then is skipped), with \<^verbatim>\<open>&nbsp;\<close> replaced (lines 166-169).
\<close>

definition kw_text :: "ustr \<Rightarrow> ustr" where
  [model_defs]: "kw_text raw = sub_nbsp (strip (remove_zero_width raw))"

definition kw_blank :: "ustr \<Rightarrow> bool" where
  [model_defs]: "kw_blank raw \<longleftrightarrow> strip (remove_zero_width raw) = []"

text \<open>One turn of the loop in the locked state (lines 172-192).\<close>

definition kw_step_locked :: "kw_key \<Rightarrow> kw_state \<Rightarrow> ustr \<Rightarrow> kw_state" where
  [model_defs]: "kw_step_locked lk st text =
     (case locked_key text of
        None \<Rightarrow> st\<lparr>kw_fields := kw_append (kw_fields st) lk text\<rparr>
      | Some new_mapped \<Rightarrow>
          if new_mapped \<noteq> lk
          then st\<lparr>kw_fields := kw_append (kw_fields st) new_mapped (value_after_delimiter text),
                  current_section := Some new_mapped, locked_section := None\<rparr>
          else st\<lparr>kw_fields := kw_append (kw_fields st) lk text\<rparr>)"

text \<open>One turn of the loop in the unlocked state (lines 196-251).\<close>

definition kw_step_unlocked :: "kw_state \<Rightarrow> ustr \<Rightarrow> kw_state" where
  [model_defs]: "kw_step_unlocked st text =
     (case kw_classify (kw_stripped text) of
        Some (mapped, contribution) \<Rightarrow>
          st\<lparr>kw_fields := (case contribution of
                          None \<Rightarrow> kw_fields st
                        | Some v \<Rightarrow> kw_append (kw_fields st) mapped v),
             current_section := Some mapped,
             locked_section := (if mapped = Method then Some Method else locked_section st)\<rparr>
      | None \<Rightarrow>
          st\<lparr>kw_fields := kw_append (kw_fields st)
                          (case current_section st of None \<Rightarrow> Content | Some k \<Rightarrow> k) text\<rparr>)"

definition kw_step :: "kw_state \<Rightarrow> ustr \<Rightarrow> kw_state" where
  [model_defs]: "kw_step st raw =
     (if kw_blank raw then st
      else (case locked_section st of
              Some lk \<Rightarrow> kw_step_locked lk st (kw_text raw)
            | None \<Rightarrow> kw_step_unlocked st (kw_text raw)))"

definition kw_run :: "kw_state \<Rightarrow> ustr list \<Rightarrow> kw_state" where
  [model_defs]: "kw_run st lns = foldl kw_step st lns"

definition parse_detail_lines_to_fields :: "ustr list \<Rightarrow> (kw_key \<Rightarrow> ustr option)" where
  [model_defs]: "parse_detail_lines_to_fields lns = kw_fields (kw_run kw_init lns)"

section \<open>Item segmenter of junggu.py\<close>

text \<open>An item is the dictionary with the keys \<^verbatim>\<open>item_title\<close> and \<^verbatim>\<open>detail_lines\<close>.\<close>

record item =
  item_title :: ustr
  detail_lines :: "ustr list"

text \<open>
  The variables \<^verbatim>\<open>items\<close>, \<^verbatim>\<open>current_title\<close> (which starts as \<^verbatim>\<open>None\<close>) and
  \<^verbatim>\<open>current_details\<close> of \<^verbatim>\<open>split_items\<close>.
\<close>

record seg_state =
  items :: "item list"
  current_title :: "ustr option"
  current_details :: "ustr list"

definition seg_init :: seg_state where
  [model_defs]: "seg_init = \<lparr>items = [], current_title = None, current_details = []\<rparr>"

text \<open>Truth value of an optional string: \<^verbatim>\<open>None\<close> and the empty string are false.\<close>

definition truthy :: "ustr option \<Rightarrow> bool" where
  [model_defs]: "truthy t \<longleftrightarrow> (case t of None \<Rightarrow> False | Some s \<Rightarrow> s \<noteq> [])"

text \<open>\<^verbatim>\<open>fallback_title or "(bonmun)"\<close>; the placeholder is the Hangul word in parentheses.\<close>

definition placeholder :: ustr where
  [model_defs]: "placeholder = [40, 48376, 47928, 41]"

definition title_or_placeholder :: "ustr option \<Rightarrow> ustr" where
  [model_defs]: "title_or_placeholder fallback_title =
     (case fallback_title of None \<Rightarrow> placeholder | Some t \<Rightarrow> if t = [] then placeholder else t)"

text \<open>
  \<^verbatim>\<open>drop_tokens\<close>: cheombu, barobogi, mongnok, ijeongeul, daeumgeul (attachment, view,
  list, previous post, next post).
\<close>

definition drop_tokens :: "ustr list" where
  [model_defs]: "drop_tokens = [[52392, 48512], [48148, 47196, 48372, 44592], [47785, 47197],
     [51060, 51204, 44544], [45796, 51020, 44544]]"

text \<open>
  \<^verbatim>\<open>flush_if_has_details\<close> of junggu.py (lines 269-276): the open item is appended only
  when it has a non-empty title and at least one detail line; its title is stripped.
\<close>

definition flush_if_has_details :: "seg_state \<Rightarrow> seg_state" where
  [model_defs]: "flush_if_has_details st =
     \<lparr>items = (case current_title st of
                 None \<Rightarrow> items st
               | Some t \<Rightarrow>
                   if t \<noteq> [] \<and> current_details st \<noteq> []
                   then items st @ [\<lparr>item_title = strip t, detail_lines = current_details st\<rparr>]
                   else items st),
      current_title = None, current_details = []\<rparr>"

text \<open>
  The boundary test of line 283. The marker is the black right-pointing triangle U+25B6.
  \<^verbatim>\<open>re.match(r"^[<\<dots>].+[>\<dots>]$", ln)\<close>: an opening bracket (less-than, U+3008 or U+300A),
  at least one character, none of them a line feed, and a closing bracket (greater-than,
  U+3009 or U+300B) at the end, a final line feed apart.
  \<^verbatim>\<open>re.match(r"^\d+\.\s*[A-Za-zH]", ln)\<close>: decimal digits, a full stop, whitespace and an
  ASCII letter or a Hangul syllable.
\<close>

definition open_bracket :: "nat \<Rightarrow> bool" where
  [model_defs]: "open_bracket c \<longleftrightarrow> c = 60 \<or> c = 12296 \<or> c = 12298"

definition close_bracket :: "nat \<Rightarrow> bool" where
  [model_defs]: "close_bracket c \<longleftrightarrow> c = 62 \<or> c = 12297 \<or> c = 12299"

definition bracket_line :: "ustr \<Rightarrow> bool" where
  [model_defs]: "bracket_line ln \<longleftrightarrow>
     (case (if ln \<noteq> [] \<and> last ln = 10 then butlast ln else ln) of
        [] \<Rightarrow> False
      | c # cs \<Rightarrow> open_bracket c \<and> 2 \<le> length cs \<and> close_bracket (last cs) \<and>
                  10 \<notin> set (butlast cs))"

definition numbered_heading :: "ustr \<Rightarrow> bool" where
  [model_defs]: "numbered_heading ln \<longleftrightarrow>
     takeWhile is_decimal ln \<noteq> [] \<and>
     (case dropWhile is_decimal ln of
        [] \<Rightarrow> False
      | d # r \<Rightarrow> d = 46 \<and>
          (case dropWhile is_space r of
             [] \<Rightarrow> False
           | x # _ \<Rightarrow> ascii_letter x \<or> hangul x))"

definition title_boundary :: "ustr \<Rightarrow> bool" where
  [model_defs]: "title_boundary ln \<longleftrightarrow> prefix [9654] ln \<or> bracket_line ln \<or> numbered_heading ln"

text \<open>
  \<^verbatim>\<open>current_title = re.sub(r"^[M\s]*", "", ln).strip()\<close> with \<open>M\<close> the marker U+25B6.
\<close>

definition title_of :: "ustr \<Rightarrow> ustr" where
  [model_defs]: "title_of ln = strip (dropWhile (\<lambda>c. c = 9654 \<or> is_space c) ln)"

text \<open>
  Lines 289-293: with a non-empty fallback title, a line that equals it after the six
  bracket characters are deleted from both and both are stripped is skipped.
\<close>

definition unbracket :: "ustr \<Rightarrow> ustr" where
  [model_defs]: "unbracket s = strip (filter (\<lambda>c. \<not> (open_bracket c \<or> close_bracket c)) s)"

definition duplicates_title :: "ustr option \<Rightarrow> ustr \<Rightarrow> bool" where
  [model_defs]: "duplicates_title fallback_title ln \<longleftrightarrow>
     (case fallback_title of
        None \<Rightarrow> False
      | Some t \<Rightarrow> t \<noteq> [] \<and> unbracket ln = unbracket t)"

text \<open>One turn of the loop over the lines (lines 278-298).\<close>

definition seg_step :: "ustr option \<Rightarrow> seg_state \<Rightarrow> ustr \<Rightarrow> seg_state" where
  [model_defs]: "seg_step fallback_title st ln =
     (if startswith_any drop_tokens ln then st
      else if title_boundary ln then (flush_if_has_details st)\<lparr>current_title := Some (title_of ln)\<rparr>
      else if duplicates_title fallback_title ln then st
      else if truthy (current_title st) then st\<lparr>current_details := current_details st @ [ln]\<rparr>
      else st)"

text \<open>
  The items found from explicit boundaries: the loop and the last flush (line 301); and
  \<^verbatim>\<open>split_items\<close> itself (lines 264-310), with the fallback of lines 304-308.
\<close>

definition explicit_items :: "ustr option \<Rightarrow> ustr list \<Rightarrow> item list" where
  [model_defs]: "explicit_items fallback_title lines =
     items (flush_if_has_details (foldl (seg_step fallback_title) seg_init lines))"

definition split_items :: "ustr \<Rightarrow> ustr option \<Rightarrow> item list" where
  [model_defs]: "split_items text fallback_title =
     (if explicit_items fallback_title (norm_lines text) = [] \<and> norm_lines text \<noteq> []
      then [\<lparr>item_title = title_or_placeholder fallback_title,
             detail_lines = norm_lines text\<rparr>]
      else explicit_items fallback_title (norm_lines text))"

text \<open>
  The \<^verbatim>\<open>full_text\<close> of a record in \<^verbatim>\<open>build_records\<close> of junggu.py (line 345): the marker
  and a space, the title, a line feed, and the detail lines joined by line feeds.
\<close>

definition full_text_of :: "item \<Rightarrow> ustr" where
  [model_defs]: "full_text_of it = [9654, 32] @ item_title it @ [10] @ py_join [10] (detail_lines it)"

section \<open>Noise trimmer (pr-1.py and pr-2.py)\<close>

text \<open>
  A bracket tag at the start of \<open>s\<close>: an opening square bracket, at least \<open>n\<close> characters
  other than a line feed, and a closing square bracket. With \<open>n = 1\<close> this is the
  alternative \<^verbatim>\<open>\[.+?\].*\<close> of \<^verbatim>\<open>NOISE_LINE_PAT\<close>, with \<open>n = 0\<close> the alternative
  \<^verbatim>\<open>\[.*?\]\<close> of the pattern that \<^verbatim>\<open>trim_noise_lines\<close> splits a contact line at.
\<close>

definition bracket_tag :: "nat \<Rightarrow> ustr \<Rightarrow> bool" where
  [model_defs]: "bracket_tag n s \<longleftrightarrow>
     (case s of [] \<Rightarrow> False | c # r \<Rightarrow> c = 91 \<and> 93 \<in> set (drop n (takeWhile (\<lambda>x. x \<noteq> 10) r)))"

text \<open>
  The survey wording shared by both patterns: the sentence "haedang menyue daehan
  manjokdo", "aju" and "manjok" with whitespace between them, "botong", "aju" and "bulman"
  with whitespace between them.
\<close>

definition survey_wording :: "ustr \<Rightarrow> bool" where
  [model_defs]: "survey_wording s \<longleftrightarrow>
     prefix [54644, 45817, 32, 47700, 45684, 50640, 32, 45824, 54620, 32, 47564, 51313, 46020] s \<or>
     lit_ws_lit [50500, 51452] [47564, 51313] s \<or>
     prefix [48372, 53685] s \<or>
     lit_ws_lit [50500, 51452] [48520, 47564] s"

text \<open>\<^verbatim>\<open>NOISE_LINE_PAT\<close> (pr-1.py lines 79-84, pr-2.py lines 40-42) at the start of \<open>s\<close>.\<close>

definition noise_at :: "ustr \<Rightarrow> bool" where
  [model_defs]: "noise_at s \<longleftrightarrow> bracket_tag 1 s \<or> survey_wording s"

text \<open>The pattern of \<^verbatim>\<open>re.split\<close> in \<^verbatim>\<open>trim_noise_lines\<close> at the start of \<open>s\<close>.\<close>

definition cut_at :: "ustr \<Rightarrow> bool" where
  [model_defs]: "cut_at s \<longleftrightarrow> bracket_tag 0 s \<or> survey_wording s"

text \<open>
  The contact headers. "munui" with whitespace allowed between its two syllables, or
  "yeollakcheo", at the start of \<open>s\<close>:
\<close>

definition inquiry_word :: "ustr \<Rightarrow> bool" where
  [model_defs]: "inquiry_word s \<longleftrightarrow> lit_ws_lit [47928] [51032] s \<or> prefix [50672, 46973, 52376] s"

text \<open>
  pr-1.py (line 90): the Hangul letter ieung U+3147 as bullet, whitespace, and the word.
  pr-2.py (line 104): the bullet is ieung or the white circle U+25CB and may be missing.
\<close>

definition contact_header_pr1 :: "ustr \<Rightarrow> bool" where
  [model_defs]: "contact_header_pr1 s \<longleftrightarrow>
     (case s of [] \<Rightarrow> False | c # r \<Rightarrow> c = 12615 \<and> inquiry_word (dropWhile is_space r))"

definition contact_header_pr2 :: "ustr \<Rightarrow> bool" where
  [model_defs]: "contact_header_pr2 s \<longleftrightarrow>
     (case s of [] \<Rightarrow> False
      | c # r \<Rightarrow> (c = 12615 \<or> c = 9675) \<and> inquiry_word (dropWhile is_space r)) \<or>
     inquiry_word s"

text \<open>\<^verbatim>\<open>trim_noise_lines\<close> of pr-1.py (lines 86-98).\<close>

fun trim_noise_lines_pr1 :: "ustr list \<Rightarrow> ustr list" where
  "trim_noise_lines_pr1 [] = []"
| "trim_noise_lines_pr1 (ln # rest) =
     (if contact_header_pr1 (strip ln) then
        (if strip (re_split_head cut_at (strip ln)) \<noteq> []
         then strip (re_split_head cut_at (strip ln)) # trim_noise_lines_pr1 rest
         else trim_noise_lines_pr1 rest)
      else if re_search noise_at (strip ln) then []
      else ln # trim_noise_lines_pr1 rest)"

text \<open>
  \<^verbatim>\<open>trim_noise_lines\<close> of pr-2.py (lines 100-109). Here \<^verbatim>\<open>continue\<close> belongs to the
  \<^verbatim>\<open>if t:\<close> of line 106, so an empty truncation falls through to the noise test, which is
  made on the truncated text, and the line itself is appended.
\<close>

fun trim_noise_lines_pr2 :: "ustr list \<Rightarrow> ustr list" where
  "trim_noise_lines_pr2 [] = []"
| "trim_noise_lines_pr2 (ln # rest) =
     (if contact_header_pr2 (strip ln) then
        (if strip (re_split_head cut_at (strip ln)) \<noteq> []
         then strip (re_split_head cut_at (strip ln)) # trim_noise_lines_pr2 rest
         else if re_search noise_at (strip (re_split_head cut_at (strip ln))) then []
         else ln # trim_noise_lines_pr2 rest)
      else if re_search noise_at (strip ln) then []
      else ln # trim_noise_lines_pr2 rest)"

section \<open>Item segmenter of pr-1.py\<close>

text \<open>
  \<^verbatim>\<open>ANGLE_TITLE_PAT.match(ln)\<close>, the pattern \<^verbatim>\<open>^[\s]*[<\<dots>](.+?)[>\<dots>]\s*$\<close>: after leading
  whitespace an opening bracket, then the shortest non-empty text without a line feed that
  is followed by a closing bracket and by nothing but whitespace. The result is the group.
\<close>

fun angle_scan :: "ustr \<Rightarrow> ustr \<Rightarrow> ustr option" where
  "angle_scan acc [] = None"
| "angle_scan acc (c # cs) =
     (if acc \<noteq> [] \<and> close_bracket c \<and> list_all is_space cs then Some acc
      else if c = 10 then None
      else angle_scan (acc @ [c]) cs)"

definition angle_title :: "ustr \<Rightarrow> ustr option" where
  [model_defs]: "angle_title ln =
     (case dropWhile is_space ln of
        [] \<Rightarrow> None
      | c # r \<Rightarrow> if open_bracket c then angle_scan [] r else None)"

text \<open>\<^verbatim>\<open>flush_if_has_details\<close> of pr-1.py (lines 150-154); the title is kept as it is.\<close>

definition flush_pr1 :: "seg_state \<Rightarrow> seg_state" where
  [model_defs]: "flush_pr1 st =
     \<lparr>items = (case current_title st of
                 None \<Rightarrow> items st
               | Some t \<Rightarrow>
                   if t \<noteq> [] \<and> current_details st \<noteq> []
                   then items st @ [\<lparr>item_title = t, detail_lines = current_details st\<rparr>]
                   else items st),
      current_title = None, current_details = []\<rparr>"

text \<open>
  One turn of the loop (lines 156-179). A line that starts with ieung is a detail line of
  the open title; any other line is joined to the last detail line with a space, or opens
  the detail lines of a non-empty title.
\<close>

definition seg_step_pr1 :: "seg_state \<Rightarrow> ustr \<Rightarrow> seg_state" where
  [model_defs]: "seg_step_pr1 st ln =
     (if startswith_any drop_tokens ln then st
      else if prefix [9654] ln
      then (flush_pr1 st)\<lparr>current_title := Some (strip (lstrip_chars (\<lambda>c. c = 9654) ln))\<rparr>
      else (case angle_title ln of
              Some g \<Rightarrow> (flush_pr1 st)\<lparr>current_title := Some (strip g)\<rparr>
            | None \<Rightarrow>
                if prefix [12615] ln then
                  (if current_title st = None then st
                   else st\<lparr>current_details := current_details st @ [ln]\<rparr>)
                else if current_details st \<noteq> [] then
                  st\<lparr>current_details := butlast (current_details st) @
                                          [last (current_details st) @ [32] @ ln]\<rparr>
                else if truthy (current_title st) then st\<lparr>current_details := [ln]\<rparr>
                else st))"

text \<open>
  The items found from explicit boundaries (the loop and lines 181-182) and
  \<^verbatim>\<open>split_items\<close> of pr-1.py (lines 145-188) with its fallback (lines 184-186).
\<close>

definition explicit_items_pr1 :: "ustr list \<Rightarrow> item list" where
  [model_defs]: "explicit_items_pr1 lines = items (flush_pr1 (foldl seg_step_pr1 seg_init lines))"

definition split_items_pr1 :: "ustr \<Rightarrow> ustr option \<Rightarrow> item list" where
  [model_defs]: "split_items_pr1 text fallback_title =
     (if explicit_items_pr1 (norm_lines text) = [] \<and> norm_lines text \<noteq> []
      then [\<lparr>item_title = title_or_placeholder fallback_title,
             detail_lines = norm_lines text\<rparr>]
      else explicit_items_pr1 (norm_lines text))"

text \<open>
  \<^verbatim>\<open>item_block_text\<close> (pr-1.py lines 281-289, pr-2.py lines 183-186): the stripped title
  after the marker and a space, a line feed, and the stripped non-empty lines joined by
  line feeds; only the title line when there is no body, only the body when the title is
  empty.
\<close>

definition block_body :: "ustr list \<Rightarrow> ustr" where
  [model_defs]: "block_body ls = py_join [10] (filter (\<lambda>l. l \<noteq> []) (map strip ls))"

definition item_block_text :: "item \<Rightarrow> ustr" where
  [model_defs]: "item_block_text it =
     (if strip (item_title it) \<noteq> [] \<and> block_body (detail_lines it) \<noteq> []
      then [9654, 32] @ strip (item_title it) @ [10] @ block_body (detail_lines it)
      else if strip (item_title it) \<noteq> [] then [9654, 32] @ strip (item_title it)
      else block_body (detail_lines it))"

text \<open>
  The \<^verbatim>\<open>full_text\<close> of a record in \<^verbatim>\<open>build_records\<close> of pr-1.py (lines 320-336): the
  block text of the item with its noise-trimmed detail lines, which are also the lines
  given to the accumulator.
\<close>

definition full_text_pr1 :: "item \<Rightarrow> ustr" where
  [model_defs]: "full_text_pr1 it =
     item_block_text \<lparr>item_title = item_title it,
                      detail_lines = trim_noise_lines_pr1 (detail_lines it)\<rparr>"

section \<open>Field accumulator of pr-1.py and pr-2.py (alias-table strategy)\<close>

text \<open>
  \<^verbatim>\<open>normalize_key\<close> of pr-1.py (lines 191-197) and pr-2.py (lines 117-123): zero-width
  marks are deleted, the two wide spaces become spaces, then stars, bullet, middle dot,
  square brackets, parentheses and braces are deleted, then hyphen, en dash and em dash,
  then all whitespace.
\<close>

definition alias_symbol :: "nat \<Rightarrow> bool" where
  [model_defs]: "alias_symbol c \<longleftrightarrow> c \<in> set [9733, 9734, 8226, 183, 91, 93, 40, 41, 123, 125]"

definition any_dash :: "nat \<Rightarrow> bool" where
  [model_defs]: "any_dash c \<longleftrightarrow> c = 45 \<or> c = 8211 \<or> c = 8212"

definition normalize_key_alias :: "ustr \<Rightarrow> ustr" where
  [model_defs]: "normalize_key_alias k =
     remove_spaces (filter (\<lambda>c. \<not> any_dash c) (filter (\<lambda>c. \<not> alias_symbol c)
       (replace_nbsp (remove_zero_width k))))"

text \<open>
  The canonical keys of the alias table are the strings \<^verbatim>\<open>"target"\<close>, \<^verbatim>\<open>"content"\<close>,
  \<^verbatim>\<open>"notes"\<close>, \<^verbatim>\<open>"application_method"\<close>, \<^verbatim>\<open>"contact"\<close>, \<^verbatim>\<open>"application_period"\<close>,
  \<^verbatim>\<open>"purchase_method"\<close> and \<^verbatim>\<open>"location"\<close>.
\<close>

datatype alias_key =
  K_target | K_content | K_notes | K_application_method | K_contact | K_application_period
| K_purchase_method | K_location

text \<open>The two scripts; they differ in the table, the bullet and the bullet prefixes.\<close>

datatype variant = PR1 | PR2

text \<open>
  \<^verbatim>\<open>KEY_ALIAS\<close> of pr-2.py (lines 25-38), in the order of the source. The table of pr-1.py
  (lines 63-76) has one more key, "juyonaeyong" after a space.
\<close>

definition key_alias_pr2 :: "(ustr \<times> alias_key) list" where
  [model_defs]: "key_alias_pr2 =
    [([45824, 49345], K_target), ([51648, 50896, 45824, 49345], K_target),
     ([51648, 50896, 51088, 44201], K_target),
     ([45236, 50857], K_content), ([51452, 50836, 45236, 50857], K_content),
     ([51648, 50896, 45236, 50857], K_content), ([48372, 51109, 45236, 50857], K_content),
     ([51228, 52636, 49436, 47448], K_content), ([51648, 50896, 54620, 46020], K_content),
     ([51648, 50896, 44552, 50529], K_content), ([51648, 50896, 32, 44552, 50529], K_content),
     ([54620, 46020], K_content), ([51648, 50896, 54805, 53468], K_content),
     ([49324, 50857, 52376], K_notes), ([44592, 53440], K_notes), ([48708, 44256], K_notes),
     ([51060, 50857, 48169, 48277], K_application_method),
     ([49888, 52397, 48169, 48277], K_application_method),
     ([49888, 52397], K_application_method),
     ([52397, 44396, 48169, 48277], K_application_method),
     ([51064, 51613, 48169, 48277], K_application_method),
     ([47928, 51032], K_contact), ([47928, 32, 51032], K_contact),
     ([50672, 46973, 52376], K_contact),
     ([44592, 44036], K_application_period), ([49888, 52397, 44592, 44036], K_application_period),
     ([49888, 52397, 44592, 54620], K_application_period),
     ([52397, 44396, 44592, 44036], K_application_period),
     ([48372, 51109, 44592, 44036], K_application_period),
     ([52628, 51652, 51068, 51221], K_application_period),
     ([51068, 49884], K_application_period), ([51068, 32, 49884], K_application_period),
     ([44396, 51077, 48169, 48277], K_purchase_method),
     ([44396, 32, 51077, 32, 48169, 48277], K_purchase_method),
     ([51109, 49548], K_location), ([51109, 32, 49548], K_location)]"

definition key_alias :: "variant \<Rightarrow> (ustr \<times> alias_key) list" where
  [model_defs]: "key_alias v =
     (case v of
        PR1 \<Rightarrow> take 5 key_alias_pr2 @ [([32, 51452, 50836, 45236, 50857], K_content)] @
                drop 5 key_alias_pr2
      | PR2 \<Rightarrow> key_alias_pr2)"

text \<open>\<^verbatim>\<open>append_field\<close> (pr-1.py lines 199-204, pr-2.py lines 125-127).\<close>

definition append_field ::
  "(alias_key \<Rightarrow> ustr option) \<Rightarrow> alias_key \<Rightarrow> ustr \<Rightarrow> (alias_key \<Rightarrow> ustr option)" where
  [model_defs]: "append_field f key val =
     (if val = [] then f
      else (case f key of
              None \<Rightarrow> f(key \<mapsto> val)
            | Some old \<Rightarrow> if old \<noteq> [] then f(key \<mapsto> old @ [32, 47, 32] @ val) else f(key \<mapsto> val)))"

text \<open>
  \<^verbatim>\<open>strip_leading_oi\<close> (pr-1.py line 214) and \<^verbatim>\<open>strip_leading_marker\<close> (pr-2.py line 136):
  a leading ieung, in pr-2.py also a leading white circle, goes with the whitespace after
  it.
\<close>

definition strip_leading_marker :: "variant \<Rightarrow> ustr \<Rightarrow> ustr" where
  [model_defs]: "strip_leading_marker v s =
     (case s of
        [] \<Rightarrow> []
      | c # r \<Rightarrow> if c = 12615 \<or> (v = PR2 \<and> c = 9675) then dropWhile is_space r else s)"

text \<open>
  \<^verbatim>\<open>KEY_VALUE_PAT.match(s)\<close>, the pattern \<^verbatim>\<open>\s*(.+?)\s*[:\<dots>\-\<dots>]\s*(.+)$\<close> with the
  delimiters colon, fullwidth colon, hyphen and en dash. The subject is a stripped line
  without its leading marker: it neither starts nor ends with whitespace. The lazy first
  group grows until a delimiter follows it and its whitespace, and the rest of the line
  after that delimiter and its whitespace is not empty and has no line feed; the group is
  then the text before the delimiter without its trailing whitespace, and it may not hold
  a line feed. The scan keeps the text read so far and returns the two groups.
\<close>

fun kv_scan :: "ustr \<Rightarrow> ustr \<Rightarrow> (ustr \<times> ustr) option" where
  "kv_scan acc [] = None"
| "kv_scan acc (c # cs) =
     (if delimiter c \<and> acc \<noteq> [] \<and>
         10 \<notin> set (if rstrip acc = [] then take 1 acc else rstrip acc) \<and>
         dropWhile is_space cs \<noteq> [] \<and> 10 \<notin> set (dropWhile is_space cs)
      then Some (if rstrip acc = [] then take 1 acc else rstrip acc, dropWhile is_space cs)
      else kv_scan (acc @ [c]) cs)"

definition kv_match :: "ustr \<Rightarrow> (ustr \<times> ustr) option" where
  [model_defs]: "kv_match s = kv_scan [] (dropWhile is_space s)"

text \<open>
  The clean-up of a contact value (pr-1.py lines 229-234, pr-2.py lines 150-154). First
  the value is cut at the first opening square bracket or one of the words cheombu,
  barobogi, mongnok, ijeongeul, daeumgeul, manjok, bulman, hwagin.
\<close>

definition contact_cut_at :: "ustr \<Rightarrow> bool" where
  [model_defs]: "contact_cut_at s \<longleftrightarrow>
     startswith_any ([91] # drop_tokens @ [[47564, 51313], [48520, 47564], [54869, 51064]]) s"

text \<open>
  Then at the first full stop that a file extension follows, whatever its case:
  \<^verbatim>\<open>\.(pdf|hwp|hwpx|docx?|xlsx?|pptx?|zip|jpe?g|png)\<close> with \<^verbatim>\<open>re.I\<close>. Under \<^verbatim>\<open>re.I\<close> a
  lower-case ASCII letter of the pattern matches itself and its capital; "i" also matches
  U+0130 and U+0131, "s" also U+017F.
\<close>

definition ci_match :: "nat \<Rightarrow> nat \<Rightarrow> bool" where
  [model_defs]: "ci_match p c \<longleftrightarrow>
     c = p \<or> c + 32 = p \<or> (p = 105 \<and> (c = 304 \<or> c = 305)) \<or> (p = 115 \<and> c = 383)"

fun ci_prefix :: "ustr \<Rightarrow> ustr \<Rightarrow> bool" where
  "ci_prefix [] s = True"
| "ci_prefix (p # ps) [] = False"
| "ci_prefix (p # ps) (c # cs) = (ci_match p c \<and> ci_prefix ps cs)"

definition extensions :: "ustr list" where
  [model_defs]: "extensions = [[112, 100, 102], [104, 119, 112], [104, 119, 112, 120],
     [100, 111, 99], [100, 111, 99, 120], [120, 108, 115], [120, 108, 115, 120],
     [112, 112, 116], [112, 112, 116, 120], [122, 105, 112], [106, 112, 103],
     [106, 112, 101, 103], [112, 110, 103]]"

definition extension_at :: "ustr \<Rightarrow> bool" where
  [model_defs]: "extension_at s \<longleftrightarrow>
     (case s of [] \<Rightarrow> False | c # r \<Rightarrow> c = 46 \<and> list_ex (\<lambda>e. ci_prefix e r) extensions)"

text \<open>
  Last, \<^verbatim>\<open>PHONE_SEQ\<close>: a telephone number is a run of 2 to 4 decimal digits, a hyphen, a
  run of 3 or 4 digits, a hyphen and four digits, with whitespace allowed around the
  hyphens; further numbers may follow, each after a slash with whitespace around it. A
  run before a hyphen is taken whole, since neither whitespace nor a hyphen is a digit.
  Each function returns the text after what it matched.
\<close>

definition digit_run :: "nat \<Rightarrow> nat \<Rightarrow> ustr \<Rightarrow> ustr option" where
  [model_defs]: "digit_run lo hi s =
     (if lo \<le> length (takeWhile is_decimal s) \<and> length (takeWhile is_decimal s) \<le> hi
      then Some (dropWhile is_decimal s) else None)"

definition spaced_char :: "nat \<Rightarrow> ustr \<Rightarrow> ustr option" where
  [model_defs]: "spaced_char x s =
     (case dropWhile is_space s of
        [] \<Rightarrow> None
      | c # r \<Rightarrow> if c = x then Some (dropWhile is_space r) else None)"

definition four_digits :: "ustr \<Rightarrow> ustr option" where
  [model_defs]: "four_digits s =
     (if 4 \<le> length s \<and> list_all is_decimal (take 4 s) then Some (drop 4 s) else None)"

definition phone_at :: "ustr \<Rightarrow> ustr option" where
  [model_defs]: "phone_at s =
     (case digit_run 2 4 s of
        None \<Rightarrow> None
      | Some r1 \<Rightarrow>
          (case spaced_char 45 r1 of
             None \<Rightarrow> None
           | Some r2 \<Rightarrow>
               (case digit_run 3 4 r2 of
                  None \<Rightarrow> None
                | Some r3 \<Rightarrow>
                    (case spaced_char 45 r3 of
                       None \<Rightarrow> None
                     | Some r4 \<Rightarrow> four_digits r4))))"

definition next_phone :: "ustr \<Rightarrow> ustr option" where
  [model_defs]: "next_phone s = (case spaced_char 47 s of None \<Rightarrow> None | Some r \<Rightarrow> phone_at r)"

function more_phones :: "ustr \<Rightarrow> ustr" where
  "more_phones s = (case next_phone s of None \<Rightarrow> s | Some r \<Rightarrow> more_phones r)"
  by pat_completeness auto
termination
proof (relation "measure length")
  show "wf (measure length)" by simp
next
  fix s r :: ustr
  assume a: "next_phone s = Some r"
  have dw: "\<And>P (xs :: ustr). length (dropWhile P xs) \<le> length xs"
    by (simp add: length_dropWhile_le)
  from a obtain r0 r1 where r0: "spaced_char 47 s = Some r0" and r1: "four_digits r1 = Some r"
    and l1: "length r1 \<le> length r0"
  proof -
    from a obtain r0 where r0: "spaced_char 47 s = Some r0" and p: "phone_at r0 = Some r"
      by (auto simp: next_phone_def split: option.splits)
    from p obtain a1 a2 a3 a4 where
      "digit_run 2 4 r0 = Some a1" "spaced_char 45 a1 = Some a2"
      "digit_run 3 4 a2 = Some a3" "spaced_char 45 a3 = Some a4" "four_digits a4 = Some r"
      by (auto simp: phone_at_def split: option.splits)
    moreover have "\<And>lo hi x y. digit_run lo hi x = Some y \<Longrightarrow> length y \<le> length x"
      using dw by (auto simp: digit_run_def split: if_splits)
    moreover have sc: "\<And>c x y. spaced_char c x = Some y \<Longrightarrow> length y \<le> length x"
    proof -
      fix c and x y :: ustr
      assume "spaced_char c x = Some y"
      then obtain d t where d: "dropWhile is_space x = d # t" and y: "y = dropWhile is_space t"
        by (auto simp: spaced_char_def split: list.splits if_splits)
      have "length y \<le> length t" using y dw by simp
      also have "\<dots> \<le> length (dropWhile is_space x)" using d by simp
      also have "\<dots> \<le> length x" by (rule dw)
      finally show "length y \<le> length x" .
    qed
    ultimately have "length a4 \<le> length r0"
      by (meson le_trans)
    with r0 \<open>four_digits a4 = Some r\<close> show ?thesis using that by blast
  qed
  have "length r0 \<le> length s"
  proof -
    from r0 obtain d t where d: "dropWhile is_space s = d # t" and y: "r0 = dropWhile is_space t"
      by (auto simp: spaced_char_def split: list.splits if_splits)
    have "length r0 \<le> length t" using y dw by simp
    also have "\<dots> \<le> length (dropWhile is_space s)" using d by simp
    also have "\<dots> \<le> length s" by (rule dw)
    finally show ?thesis .
  qed
  moreover from r1 have "length r < length r1"
    by (auto simp: four_digits_def split: if_splits)
  ultimately show "(r, s) \<in> measure length" using l1 by simp
qed

definition phone_seq_at :: "ustr \<Rightarrow> ustr option" where
  [model_defs]: "phone_seq_at s = (case phone_at s of None \<Rightarrow> None | Some r \<Rightarrow> Some (more_phones r))"

text \<open>\<^verbatim>\<open>PHONE_SEQ.search(v)\<close>: the text after the leftmost match, if there is a match.\<close>

fun phone_search :: "ustr \<Rightarrow> ustr option" where
  "phone_search [] = None"
| "phone_search (c # cs) =
     (case phone_seq_at (c # cs) of Some r \<Rightarrow> Some r | None \<Rightarrow> phone_search cs)"

definition clean_contact :: "ustr \<Rightarrow> ustr" where
  [model_defs]: "clean_contact v =
     (case phone_search (strip (re_split_head extension_at (strip (re_split_head contact_cut_at v)))) of
        None \<Rightarrow> strip (re_split_head extension_at (strip (re_split_head contact_cut_at v)))
      | Some r \<Rightarrow>
          strip (take (length (strip (re_split_head extension_at (strip (re_split_head contact_cut_at v))))
                       - length r)
                   (strip (re_split_head extension_at (strip (re_split_head contact_cut_at v))))))"

text \<open>
  Check 1 (pr-1.py lines 222-237): key and value at a delimiter, the key looked up in the
  table after normalization; a contact value is cleaned.
\<close>

definition kv_classify :: "variant \<Rightarrow> ustr \<Rightarrow> (alias_key \<times> ustr) option" where
  [model_defs]: "kv_classify v s =
     (case kv_match s of
        None \<Rightarrow> None
      | Some (pre, post) \<Rightarrow>
          (case map_of (key_alias v) (normalize_key_alias (strip pre)) of
             None \<Rightarrow> None
           | Some k_std \<Rightarrow>
               Some (k_std, if k_std = K_contact then clean_contact (strip post) else strip post)))"

text \<open>\<^verbatim>\<open>s.split()\<close>: the maximal blocks without whitespace.\<close>

fun py_words_aux :: "ustr \<Rightarrow> ustr \<Rightarrow> ustr list" where
  "py_words_aux cur [] = (if cur = [] then [] else [cur])"
| "py_words_aux cur (c # cs) =
     (if is_space c then (if cur = [] then py_words_aux [] cs else cur # py_words_aux [] cs)
      else py_words_aux (cur @ [c]) cs)"

definition py_words :: "ustr \<Rightarrow> ustr list" where
  [model_defs]: "py_words s = py_words_aux [] s"

text \<open>
  Check 2 (pr-1.py lines 241-262): for \<open>i\<close> from the number of words down to 1 the first
  \<open>i\<close> words, joined by single spaces, are normalized and looked up. The result is the
  canonical key and the joined prefix.
\<close>

fun prefix_scan :: "(ustr \<times> alias_key) list \<Rightarrow> ustr list \<Rightarrow> nat \<Rightarrow> (alias_key \<times> ustr) option" where
  "prefix_scan tbl ws 0 = None"
| "prefix_scan tbl ws (Suc i) =
     (case map_of tbl (normalize_key_alias (py_join [32] (take (Suc i) ws))) of
        Some k_std \<Rightarrow> Some (k_std, py_join [32] (take (Suc i) ws))
      | None \<Rightarrow> prefix_scan tbl ws i)"

text \<open>
  Checks 3 and 4 (pr-1.py lines 265-276, pr-2.py lines 174-179) tell a bulleted or numbered
  line from a plain one and then make the same update.
\<close>

definition bullet_prefixes :: "variant \<Rightarrow> ustr list" where
  [model_defs]: "bullet_prefixes v =
     [[9758], [8226], [183], [45], [9654], [9655], [9632]] @
     (case v of PR1 \<Rightarrow> [] | PR2 \<Rightarrow> [[8251], [9679], [9675]])"

definition num_bullet :: "ustr \<Rightarrow> bool" where
  [model_defs]: "num_bullet s \<longleftrightarrow>
     (takeWhile is_decimal s \<noteq> [] \<and> prefix [46] (dropWhile is_decimal s)) \<or>
     (case s of [] \<Rightarrow> False | c # _ \<Rightarrow> 9312 \<le> c \<and> c \<le> 9321)"

record alias_state =
  al_fields :: "alias_key \<Rightarrow> ustr option"
  al_current :: "alias_key option"

definition alias_init :: alias_state where
  [model_defs]: "alias_init = \<lparr>al_fields = Map.empty, al_current = None\<rparr>"

definition section_or_content :: "alias_state \<Rightarrow> alias_key" where
  [model_defs]: "section_or_content st = (case al_current st of None \<Rightarrow> K_content | Some k \<Rightarrow> k)"

definition alias_step_line :: "variant \<Rightarrow> alias_state \<Rightarrow> ustr \<Rightarrow> alias_state" where
  [model_defs]: "alias_step_line v st raw_norm =
     (case kv_classify v (strip_leading_marker v raw_norm) of
        Some (k_std, val) \<Rightarrow>
          st\<lparr>al_fields := append_field (al_fields st) k_std val, al_current := Some k_std\<rparr>
      | None \<Rightarrow>
          (case prefix_scan (key_alias v) (py_words (strip_leading_marker v raw_norm))
                  (length (py_words (strip_leading_marker v raw_norm))) of
             Some (k_std, pre_part) \<Rightarrow>
               st\<lparr>al_fields :=
                     (if strip (drop (length pre_part) (strip_leading_marker v raw_norm)) \<noteq> []
                      then append_field (al_fields st) k_std
                             (strip (drop (length pre_part) (strip_leading_marker v raw_norm)))
                      else al_fields st),
                  al_current := Some k_std\<rparr>
           | None \<Rightarrow>
               if startswith_any (bullet_prefixes v) raw_norm \<or> num_bullet raw_norm
               then st\<lparr>al_fields := append_field (al_fields st) (section_or_content st) raw_norm\<rparr>
               else st\<lparr>al_fields := append_field (al_fields st) (section_or_content st) raw_norm\<rparr>))"

definition alias_step :: "variant \<Rightarrow> alias_state \<Rightarrow> ustr \<Rightarrow> alias_state" where
  [model_defs]: "alias_step v st raw =
     (if strip (remove_zero_width raw) = [] then st
      else alias_step_line v st (strip (remove_zero_width raw)))"

definition alias_run :: "variant \<Rightarrow> alias_state \<Rightarrow> ustr list \<Rightarrow> alias_state" where
  [model_defs]: "alias_run v st lns = foldl (alias_step v) st lns"

definition parse_fields_alias :: "variant \<Rightarrow> ustr list \<Rightarrow> (alias_key \<Rightarrow> ustr option)" where
  [model_defs]: "parse_fields_alias v lns = al_fields (alias_run v alias_init lns)"

section \<open>Canonicalization and deduplication (save_records of pr-1.py and pr-2.py)\<close>

text \<open>
  \<^verbatim>\<open>re.sub(r"[ \t]+", " ", s)\<close>: every maximal run of spaces and tabs becomes one space.
\<close>

definition blank :: "nat \<Rightarrow> bool" where
  [model_defs]: "blank c \<longleftrightarrow> c = 32 \<or> c = 9"

function collapse_blanks :: "ustr \<Rightarrow> ustr" where
  "collapse_blanks [] = []"
| "collapse_blanks (c # cs) =
     (if blank c then 32 # collapse_blanks (dropWhile blank cs) else c # collapse_blanks cs)"
  by pat_completeness auto
termination
  by (relation "measure length") (auto simp: le_imp_less_Suc length_dropWhile_le)

text \<open>
  \<^verbatim>\<open>re.sub(r"\s*\n\s*", "\n", s)\<close>: the pattern matches at a position exactly when the run
  of whitespace that starts there holds a line feed, and then it matches the whole run.
\<close>

definition newline_run :: "ustr \<Rightarrow> bool" where
  [model_defs]: "newline_run s \<longleftrightarrow> 10 \<in> set (takeWhile is_space s)"

function collapse_around_newline :: "ustr \<Rightarrow> ustr" where
  "collapse_around_newline [] = []"
| "collapse_around_newline (c # cs) =
     (if newline_run (c # cs)
      then 10 # collapse_around_newline (dropWhile is_space cs)
      else c # collapse_around_newline cs)"
  by pat_completeness auto
termination
  by (relation "measure length") (auto simp: le_imp_less_Suc length_dropWhile_le)

text \<open>\<^verbatim>\<open>re.sub(r"\n{2,}", "\n", s)\<close>: two or more line feeds in a row become one.\<close>

function collapse_newlines :: "ustr \<Rightarrow> ustr" where
  "collapse_newlines [] = []"
| "collapse_newlines (c # cs) =
     (if c = 10 \<and> prefix [10] cs then 10 # collapse_newlines (dropWhile (\<lambda>x. x = 10) cs)
      else c # collapse_newlines cs)"
  by pat_completeness auto
termination
  by (relation "measure length") (auto simp: le_imp_less_Suc length_dropWhile_le)

text \<open>The string part of \<^verbatim>\<open>_canon_text\<close> (pr-1.py lines 346-352).\<close>

definition canon_str :: "ustr \<Rightarrow> ustr" where
  [model_defs]: "canon_str s =
     strip (collapse_newlines (collapse_around_newline (collapse_blanks
       (replace_nbsp (remove_zero_width s)))))"

text \<open>
  A cell of the data frame is \<^verbatim>\<open>None\<close> or a string. \<^verbatim>\<open>_canon_text\<close> (pr-1.py lines
  343-352, pr-2.py lines 218-226) maps \<^verbatim>\<open>None\<close> to the empty string.
\<close>

definition canon_text :: "ustr option \<Rightarrow> ustr" where
  [model_defs]: "canon_text x = (case x of None \<Rightarrow> [] | Some s \<Rightarrow> canon_str s)"

text \<open>A record of the output, with the columns of \<^verbatim>\<open>COLS\<close> in their order.\<close>

record row =
  col_region :: "ustr option"
  col_source_category :: "ustr option"
  col_item_title :: "ustr option"
  col_target :: "ustr option"
  col_application_period :: "ustr option"
  col_content :: "ustr option"
  col_application_method :: "ustr option"
  col_contact :: "ustr option"
  col_notes :: "ustr option"
  col_purchase_method :: "ustr option"
  col_location :: "ustr option"
  col_full_text :: "ustr option"
  col_source_url :: "ustr option"

text \<open>
  \<^verbatim>\<open>for c in compare_cols: df[c] = df[c].apply(_canon_text)\<close> (pr-1.py lines 366-368):
  every column but \<^verbatim>\<open>source_url\<close> and \<^verbatim>\<open>full_text\<close> is overwritten with its canonical
  text.
\<close>

definition canon_row :: "row \<Rightarrow> row" where
  [model_defs]: "canon_row r =
     r\<lparr>col_region := Some (canon_text (col_region r)),
       col_source_category := Some (canon_text (col_source_category r)),
       col_item_title := Some (canon_text (col_item_title r)),
       col_target := Some (canon_text (col_target r)),
       col_application_period := Some (canon_text (col_application_period r)),
       col_content := Some (canon_text (col_content r)),
       col_application_method := Some (canon_text (col_application_method r)),
       col_contact := Some (canon_text (col_contact r)),
       col_notes := Some (canon_text (col_notes r)),
       col_purchase_method := Some (canon_text (col_purchase_method r)),
       col_location := Some (canon_text (col_location r))\<rparr>"

text \<open>The values of a row in the columns \<^verbatim>\<open>compare_cols\<close>.\<close>

definition compare_key :: "row \<Rightarrow> ustr option list" where
  [model_defs]: "compare_key r =
     [col_region r, col_source_category r, col_item_title r, col_target r,
      col_application_period r, col_content r, col_application_method r, col_contact r,
      col_notes r, col_purchase_method r, col_location r]"

text \<open>
  \<^verbatim>\<open>df.drop_duplicates(subset=compare_cols, keep="first")\<close>: a row stays when no earlier
  row has the same values in the compared columns. The first argument holds the keys seen
  so far.
\<close>

fun drop_duplicates :: "ustr option list list \<Rightarrow> row list \<Rightarrow> row list" where
  "drop_duplicates seen [] = []"
| "drop_duplicates seen (r # rs) =
     (if compare_key r \<in> set seen then drop_duplicates seen rs
      else r # drop_duplicates (compare_key r # seen) rs)"

text \<open>
  The records that \<^verbatim>\<open>save_records\<close> writes (pr-1.py lines 358-370): the rows with their
  compared columns canonicalized, without the duplicates.
\<close>

definition deduplicate :: "row list \<Rightarrow> row list" where
  [model_defs]: "deduplicate rs = drop_duplicates [] (map canon_row rs)"

text \<open>
  What a canonical text looks like, for the proofs about \<open>canon_str\<close>: it has no
  zero-width mark, no wide space and no tab; no two spaces stand side by side; a line
  feed has no whitespace next to it; and the text neither starts nor ends with
  whitespace.
\<close>

definition plain_char :: "nat \<Rightarrow> bool" where
  "plain_char c \<longleftrightarrow> \<not> zero_width c \<and> c \<noteq> 160 \<and> c \<noteq> 12288 \<and> c \<noteq> 9"

definition single_space :: "nat \<Rightarrow> nat \<Rightarrow> bool" where
  "single_space a b \<longleftrightarrow> \<not> (a = 32 \<and> b = 32)"

definition bare_newline :: "nat \<Rightarrow> nat \<Rightarrow> bool" where
  "bare_newline a b \<longleftrightarrow> \<not> (is_space a \<and> b = 10) \<and> \<not> (a = 10 \<and> is_space b)"

definition canonical :: "ustr \<Rightarrow> bool" where
  "canonical t \<longleftrightarrow>
     list_all plain_char t \<and> successively single_space t \<and> successively bare_newline t \<and>
     dropWhile is_space t = t \<and> dropWhile is_space (rev t) = rev t"

text \<open>
  For the proofs about the full-text block of pr-1.py: an item whose title is stripped and
  whose detail lines are stripped and not empty, and a segmenter state that holds only
  such items, such detail lines and a stripped title.
\<close>

definition good_item :: "item \<Rightarrow> bool" where
  "good_item it \<longleftrightarrow>
     strip (item_title it) = item_title it \<and> (\<forall>l\<in>set (detail_lines it). l \<noteq> [] \<and> strip l = l)"

definition good_state :: "seg_state \<Rightarrow> bool" where
  "good_state st \<longleftrightarrow>
     (\<forall>it\<in>set (items st). good_item it) \<and>
     (\<forall>l\<in>set (current_details st). l \<noteq> [] \<and> strip l = l) \<and>
     (\<forall>t. current_title st = Some t \<longrightarrow> strip t = t)"

section \<open>Facts about the text functions\<close>

lemma dropWhile_none: "\<forall>c\<in>set s. \<not> P c \<Longrightarrow> dropWhile P s = s"
  by (cases s) auto

lemma strip_no_space: "\<forall>c\<in>set s. \<not> is_space c \<Longrightarrow> strip s = s"
  by (simp add: strip_def strip_chars_def lstrip_chars_def rstrip_chars_def dropWhile_none)

section \<open>Key normalization and digits or colons\<close>

lemma cut_digit_colon_no_newline:
  "10 \<notin> set s \<Longrightarrow> cut_digit_colon s = takeWhile (\<lambda>c. \<not> digit_or_colon c) s"
proof (induction s)
  case Nil
  then show ?case by simp
next
  case (Cons c cs)
  have "10 \<notin> set (butlast cs)" using Cons.prems by (auto dest: in_set_butlastD)
  moreover have "\<not> (cs \<noteq> [] \<and> last cs = 10)"
  proof
    assume "cs \<noteq> [] \<and> last cs = 10"
    then have "10 \<in> set cs" by (metis last_in_set)
    with Cons.prems show False by simp
  qed
  ultimately show ?case using Cons by simp
qed

lemma kw_filter_chain:
  "remove_spaces (filter (\<lambda>c. \<not> kw_symbol c) (replace_nbsp (remove_zero_width k))) =
   filter (\<lambda>c. \<not> zero_width c \<and> \<not> kw_symbol c \<and> \<not> is_space c) k"
proof (induction k)
  case Nil
  then show ?case by (simp add: remove_spaces_def replace_nbsp_def remove_zero_width_def)
next
  case (Cons c k)
  have a: "c = 160 \<or> c = 12288 \<Longrightarrow> is_space c \<and> is_space 32 \<and> \<not> kw_symbol 32"
    by (auto simp: is_space_def kw_symbol_def)
  show ?case using Cons a
    by (auto simp: remove_spaces_def replace_nbsp_def remove_zero_width_def)
qed

lemma takeWhile_filter_commute:
  "\<forall>c. \<not> Q c \<longrightarrow> P c \<Longrightarrow> takeWhile Q (filter P s) = filter P (takeWhile Q s)"
  by (induction s) auto

text \<open>
  Claim C8, as amended. In the keyword-inclusion strategy \<open>normalize_key\<close> removes
  everything from the first colon or ASCII digit of its input onward: its result is the
  input before that character, without zero-width marks, decorative symbols and
  whitespace; so "munui:" and "munui1" both normalize to "munui". The normalization of
  the alias-table strategy has no such step: it works character by character, so the
  normalization of a text followed by more text is the two normalizations one after the
  other, and nothing after a digit or colon is lost.
\<close>

theorem normalize_key_truncates:
  "normalize_key k =
     filter (\<lambda>c. \<not> zero_width c \<and> \<not> kw_symbol c \<and> \<not> is_space c)
       (takeWhile (\<lambda>c. \<not> digit_or_colon c) k) \<and>
   normalize_key [47928, 51032, 58] = [47928, 51032] \<and>
   normalize_key [47928, 51032, 49] = [47928, 51032] \<and>
   normalize_key_alias (a @ b) = normalize_key_alias a @ normalize_key_alias b"
proof -
  let ?keep = "\<lambda>c. \<not> zero_width c \<and> \<not> kw_symbol c \<and> \<not> is_space c"
  have nl: "10 \<notin> set (filter ?keep k)" by (auto simp: is_space_def)
  have dc: "\<forall>c. \<not> \<not> digit_or_colon c \<longrightarrow> ?keep c"
    by (auto simp: digit_or_colon_def zero_width_def kw_symbol_def is_space_def)
  have "cut_digit_colon (filter ?keep k) = filter ?keep (takeWhile (\<lambda>c. \<not> digit_or_colon c) k)"
    using cut_digit_colon_no_newline [OF nl] takeWhile_filter_commute [OF dc] by simp
  moreover have "strip (filter ?keep (takeWhile (\<lambda>c. \<not> digit_or_colon c) k)) =
      filter ?keep (takeWhile (\<lambda>c. \<not> digit_or_colon c) k)"
    by (rule strip_no_space) simp
  ultimately have general: "normalize_key k =
      filter ?keep (takeWhile (\<lambda>c. \<not> digit_or_colon c) k)"
    by (simp add: normalize_key_def kw_filter_chain)
  have ex1: "normalize_key [47928, 51032, 58] = [47928, 51032]"
    by (simp add: model_defs)
  have ex2: "normalize_key [47928, 51032, 49] = [47928, 51032]"
    by (simp add: model_defs)
  have hom: "normalize_key_alias (a @ b) = normalize_key_alias a @ normalize_key_alias b"
    by (simp add: normalize_key_alias_def remove_spaces_def replace_nbsp_def remove_zero_width_def)
  from general ex1 ex2 hom show ?thesis by blast
qed

text \<open>
  The claim as stated fails for the alias-table strategy: there "munui1" and "munui:"
  keep their digit and their colon, and so do not normalize to "munui".
\<close>

theorem alias_normalize_keeps_digit_counterexample:
  "normalize_key_alias [47928, 51032, 49] = [47928, 51032, 49] \<and>
   normalize_key_alias [47928, 51032, 58] = [47928, 51032, 58] \<and>
   normalize_key_alias [47928, 51032, 49] \<noteq> [47928, 51032]"
  by (simp add: model_defs)

section \<open>The alias-table accumulator never stores an empty value\<close>

lemma append_field_keeps:
  assumes "\<forall>k. f k \<noteq> Some []"
  shows "append_field f key val k \<noteq> Some []"
  using assms by (auto simp: append_field_def split: option.splits)

lemma alias_step_line_keeps:
  assumes "\<forall>k. al_fields st k \<noteq> Some []"
  shows "al_fields (alias_step_line v st raw_norm) k \<noteq> Some []"
  using assms
  by (auto simp: alias_step_line_def append_field_keeps split: option.splits prod.splits)

lemma alias_step_keeps:
  assumes "\<forall>k. al_fields st k \<noteq> Some []"
  shows "\<forall>k. al_fields (alias_step v st raw) k \<noteq> Some []"
  using assms by (simp add: alias_step_def alias_step_line_keeps)

lemma alias_run_keeps:
  "\<forall>k. al_fields st k \<noteq> Some [] \<Longrightarrow> \<forall>k. al_fields (alias_run v st lns) k \<noteq> Some []"
  unfolding alias_run_def
proof (induction lns arbitrary: st)
  case Nil
  then show ?case by simp
next
  case (Cons l lns)
  from Cons.prems have "\<forall>k. al_fields (alias_step v st l) k \<noteq> Some []"
    by (rule alias_step_keeps)
  then show ?case using Cons.IH by simp
qed

text \<open>
  Claim C10. \<open>append_field\<close> with an empty value changes nothing, and after every
  processed line (for every prefix of the detail lines, in pr-1.py and in pr-2.py) no
  canonical key of the accumulator maps to the empty string: a key that is present has a
  non-empty value.
\<close>

theorem alias_fields_never_empty:
  "append_field f key [] = f \<and> parse_fields_alias v (take n lns) k \<noteq> Some []"
proof
  show "append_field f key [] = f" by (simp add: append_field_def)
next
  have "\<forall>k. al_fields alias_init k \<noteq> Some []" by (simp add: alias_init_def)
  then have "\<forall>k. al_fields (alias_run v alias_init (take n lns)) k \<noteq> Some []"
    by (rule alias_run_keeps)
  then show "parse_fields_alias v (take n lns) k \<noteq> Some []"
    by (simp add: parse_fields_alias_def)
qed

section \<open>The locked section of the keyword-inclusion accumulator\<close>

lemma kw_step_lock_only_method:
  assumes "locked_section st = None \<or> locked_section st = Some Method"
  shows "locked_section (kw_step st raw) = None \<or> locked_section (kw_step st raw) = Some Method"
  using assms
  by (auto simp: kw_step_def kw_step_locked_def kw_step_unlocked_def
      split: option.splits prod.splits)

lemma kw_run_lock_only_method:
  "locked_section st = None \<or> locked_section st = Some Method \<Longrightarrow>
   locked_section (kw_run st lns) = None \<or> locked_section (kw_run st lns) = Some Method"
  unfolding kw_run_def
proof (induction lns arbitrary: st)
  case Nil
  then show ?case by simp
next
  case (Cons l lns)
  from Cons.prems
  have "locked_section (kw_step st l) = None \<or> locked_section (kw_step st l) = Some Method"
    by (rule kw_step_lock_only_method)
  then show ?case using Cons.IH by simp
qed

lemma kw_step_while_locked:
  assumes "locked_section st = Some Method"
    and "kw_blank raw \<or> locked_key (kw_text raw) = None \<or> locked_key (kw_text raw) = Some Method"
  shows "kw_step st raw =
    (if kw_blank raw then st
     else st\<lparr>kw_fields := kw_append (kw_fields st) Method (kw_text raw)\<rparr>)"
  using assms by (auto simp: kw_step_def kw_step_locked_def split: option.splits)

lemma kw_run_while_locked:
  assumes "locked_section st = Some Method"
    and "\<forall>raw\<in>set lns. kw_blank raw \<or> locked_key (kw_text raw) = None \<or>
           locked_key (kw_text raw) = Some Method"
  shows "kw_run st lns =
    foldl (\<lambda>s raw. s\<lparr>kw_fields := kw_append (kw_fields s) Method (kw_text raw)\<rparr>) st
      (filter (\<lambda>raw. \<not> kw_blank raw) lns)"
  using assms unfolding kw_run_def
proof (induction lns arbitrary: st)
  case Nil
  then show ?case by simp
next
  case (Cons l lns)
  have step: "kw_step st l =
      (if kw_blank l then st else st\<lparr>kw_fields := kw_append (kw_fields st) Method (kw_text l)\<rparr>)"
    using Cons.prems by (intro kw_step_while_locked) auto
  then have "locked_section (kw_step st l) = Some Method" using Cons.prems(1) by simp
  moreover have "\<forall>raw\<in>set lns. kw_blank raw \<or> locked_key (kw_text raw) = None \<or>
           locked_key (kw_text raw) = Some Method" using Cons.prems(2) by simp
  ultimately have "foldl kw_step (kw_step st l) lns =
      foldl (\<lambda>s raw. s\<lparr>kw_fields := kw_append (kw_fields s) Method (kw_text raw)\<rparr>) (kw_step st l)
        (filter (\<lambda>raw. \<not> kw_blank raw) lns)"
    by (rule Cons.IH)
  then show ?case using step by simp
qed

text \<open>
  Claim C1, for \<open>parse_detail_lines_to_fields\<close> of junggu.py, in four parts.
  (1) At every point of the accumulation at most one section is locked: the lock is one
  variable, and it is empty or holds the method section.
  (2) A line that classifies to method in the unlocked state locks the method section.
  (3) While the method section is locked, every following line whose candidate key
  classifies to no key or to method is appended to the method field, and nothing else
  changes (a line that is blank once its zero-width marks are removed has no text to
  append and is passed over).
  (4) The first line whose candidate key classifies to another canonical key unlocks: the
  lock is released, that key becomes the current section and receives the value part of
  the line.
\<close>

theorem method_lock_holds_until_other_key:
  "(locked_section (kw_run kw_init lns0) = None \<or> locked_section (kw_run kw_init lns0) = Some Method) \<and>
   (locked_section st0 = None \<and> \<not> kw_blank raw0 \<and>
      map_option fst (kw_classify (kw_stripped (kw_text raw0))) = Some Method
    \<longrightarrow> locked_section (kw_step st0 raw0) = Some Method \<and>
        current_section (kw_step st0 raw0) = Some Method) \<and>
   (locked_section st = Some Method \<and>
      (\<forall>raw\<in>set lns. kw_blank raw \<or> locked_key (kw_text raw) = None \<or>
                      locked_key (kw_text raw) = Some Method)
    \<longrightarrow> kw_run st lns =
          foldl (\<lambda>s raw. s\<lparr>kw_fields := kw_append (kw_fields s) Method (kw_text raw)\<rparr>) st
            (filter (\<lambda>raw. \<not> kw_blank raw) lns)) \<and>
   (locked_section st1 = Some Method \<and> \<not> kw_blank raw1 \<and>
      locked_key (kw_text raw1) = Some k \<and> k \<noteq> Method
    \<longrightarrow> locked_section (kw_step st1 raw1) = None \<and>
        current_section (kw_step st1 raw1) = Some k \<and>
        kw_fields (kw_step st1 raw1) =
          kw_append (kw_fields st1) k (value_after_delimiter (kw_text raw1)))"
proof (intro conjI impI)
  have "locked_section kw_init = None \<or> locked_section kw_init = Some Method"
    by (simp add: kw_init_def)
  then show "locked_section (kw_run kw_init lns0) = None \<or>
      locked_section (kw_run kw_init lns0) = Some Method"
    by (rule kw_run_lock_only_method)
next
  assume a: "locked_section st0 = None \<and> \<not> kw_blank raw0 \<and>
      map_option fst (kw_classify (kw_stripped (kw_text raw0))) = Some Method"
  then show "locked_section (kw_step st0 raw0) = Some Method"
    by (auto simp: kw_step_def kw_step_unlocked_def split: option.splits prod.splits)
  from a show "current_section (kw_step st0 raw0) = Some Method"
    by (auto simp: kw_step_def kw_step_unlocked_def split: option.splits prod.splits)
next
  assume "locked_section st = Some Method \<and>
      (\<forall>raw\<in>set lns. kw_blank raw \<or> locked_key (kw_text raw) = None \<or>
                      locked_key (kw_text raw) = Some Method)"
  then show "kw_run st lns =
          foldl (\<lambda>s raw. s\<lparr>kw_fields := kw_append (kw_fields s) Method (kw_text raw)\<rparr>) st
            (filter (\<lambda>raw. \<not> kw_blank raw) lns)"
    using kw_run_while_locked by blast
next
  assume a: "locked_section st1 = Some Method \<and> \<not> kw_blank raw1 \<and>
      locked_key (kw_text raw1) = Some k \<and> k \<noteq> Method"
  then show "locked_section (kw_step st1 raw1) = None"
    by (auto simp: kw_step_def kw_step_locked_def)
  from a show "current_section (kw_step st1 raw1) = Some k"
    by (auto simp: kw_step_def kw_step_locked_def)
  from a show "kw_fields (kw_step st1 raw1) =
          kw_append (kw_fields st1) k (value_after_delimiter (kw_text raw1))"
    by (auto simp: kw_step_def kw_step_locked_def)
qed

theorem method_lock_holds_until_other_key_witness:
  "locked_section (kw_step kw_init [12615, 32, 49888, 52397, 48169, 48277]) = Some Method \<and>
   kw_run (kw_step kw_init [12615, 32, 49888, 52397, 48169, 48277]) [[49, 46, 32, 50728, 46972, 51064, 32, 51217, 49688], [50, 46, 32, 48169, 47928, 32, 51217, 49688]] =
     \<lparr>kw_fields = [Method \<mapsto> [49, 46, 32, 50728, 46972, 51064, 32, 51217, 49688, 32, 47, 32, 50, 46, 32, 48169, 47928, 32, 51217, 49688]], current_section = Some Method,
      locked_section = Some Method\<rparr> \<and>
   locked_section (kw_step (kw_run (kw_step kw_init [12615, 32, 49888, 52397, 48169, 48277]) [[49, 46, 32, 50728, 46972, 51064, 32, 51217, 49688], [50, 46, 32, 48169, 47928, 32, 51217, 49688]]) [12615, 32, 51109, 49548, 32, 58, 32, 51473, 44396, 52397, 32, 50, 52789]) = None \<and>
   current_section (kw_step (kw_run (kw_step kw_init [12615, 32, 49888, 52397, 48169, 48277]) [[49, 46, 32, 50728, 46972, 51064, 32, 51217, 49688], [50, 46, 32, 48169, 47928, 32, 51217, 49688]]) [12615, 32, 51109, 49548, 32, 58, 32, 51473, 44396, 52397, 32, 50, 52789]) = Some Location"
  using method_lock_holds_until_other_key
    [of "[[12615, 32, 49888, 52397, 48169, 48277], [49, 46, 32, 50728, 46972, 51064, 32, 51217, 49688], [50, 46, 32, 48169, 47928, 32, 51217, 49688], [12615, 32, 51109, 49548, 32, 58, 32, 51473, 44396, 52397, 32, 50, 52789]]" kw_init "[12615, 32, 49888, 52397, 48169, 48277]"
        "kw_step kw_init [12615, 32, 49888, 52397, 48169, 48277]" "[[49, 46, 32, 50728, 46972, 51064, 32, 51217, 49688], [50, 46, 32, 48169, 47928, 32, 51217, 49688]]"
        "kw_run (kw_step kw_init [12615, 32, 49888, 52397, 48169, 48277]) [[49, 46, 32, 50728, 46972, 51064, 32, 51217, 49688], [50, 46, 32, 48169, 47928, 32, 51217, 49688]]" "[12615, 32, 51109, 49548, 32, 58, 32, 51473, 44396, 52397, 32, 50, 52789]" Location]
  by (simp add: model_defs)


section \<open>The announcement marker opens an item\<close>

lemma marker_line_not_dropped: "prefix [9654] ln \<Longrightarrow> \<not> startswith_any drop_tokens ln"
  by (cases ln) (auto simp: startswith_any_def drop_tokens_def)

text \<open>
  Claim C5, as amended. For every line that begins with the marker U+25B6 (the black
  right-pointing triangle) the segmenter flushes the open item and opens a new one: in
  junggu.py the new title is the line without its leading markers and whitespace, in
  pr-1.py the line without its leading markers, stripped; the detail lines start empty and
  the items are those of the flush.
\<close>

theorem marker_line_opens_item:
  "prefix [9654] ln \<longrightarrow>
     seg_step fallback_title st ln =
       \<lparr>items = items (flush_if_has_details st),
        current_title = Some (strip (dropWhile (\<lambda>c. c = 9654 \<or> is_space c) ln)),
        current_details = []\<rparr> \<and>
     seg_step_pr1 st ln =
       \<lparr>items = items (flush_pr1 st),
        current_title = Some (strip (dropWhile (\<lambda>c. c = 9654) ln)),
        current_details = []\<rparr>"
proof
  assume p: "prefix [9654] ln"
  then have nd: "\<not> startswith_any drop_tokens ln" by (rule marker_line_not_dropped)
  from p have tb: "title_boundary ln" by (simp add: title_boundary_def)
  have "seg_step fallback_title st ln =
       \<lparr>items = items (flush_if_has_details st),
        current_title = Some (strip (dropWhile (\<lambda>c. c = 9654 \<or> is_space c) ln)),
        current_details = []\<rparr>"
    using nd tb by (simp add: seg_step_def title_of_def flush_if_has_details_def)
  moreover have "seg_step_pr1 st ln =
       \<lparr>items = items (flush_pr1 st),
        current_title = Some (strip (dropWhile (\<lambda>c. c = 9654) ln)),
        current_details = []\<rparr>"
    using nd p by (simp add: seg_step_pr1_def flush_pr1_def lstrip_chars_def)
  ultimately show "seg_step fallback_title st ln =
       \<lparr>items = items (flush_if_has_details st),
        current_title = Some (strip (dropWhile (\<lambda>c. c = 9654 \<or> is_space c) ln)),
        current_details = []\<rparr> \<and>
     seg_step_pr1 st ln =
       \<lparr>items = items (flush_pr1 st),
        current_title = Some (strip (dropWhile (\<lambda>c. c = 9654) ln)),
        current_details = []\<rparr>" ..
qed

theorem marker_line_opens_item_witness:
  "seg_step None \<lparr>items = [], current_title = Some [65], current_details = [[12615, 32, 120]]\<rparr> [9654, 32, 66] =
     \<lparr>items = [\<lparr>item_title = [65], detail_lines = [[12615, 32, 120]]\<rparr>], current_title = Some [66],
      current_details = []\<rparr> \<and>
   seg_step_pr1 \<lparr>items = [], current_title = Some [65], current_details = [[12615, 32, 120]]\<rparr> [9654, 32, 66] =
     \<lparr>items = [\<lparr>item_title = [65], detail_lines = [[12615, 32, 120]]\<rparr>], current_title = Some [66],
      current_details = []\<rparr>"
  using marker_line_opens_item
    [of "[9654, 32, 66]" None "\<lparr>items = [], current_title = Some [65], current_details = [[12615, 32, 120]]\<rparr>"]
  by (simp add: model_defs)

text \<open>
  The claim as stated fails for the white triangle U+25B7 and the pointer U+25BA: such
  a line is no boundary. With the title "A" open and one detail line, junggu.py appends
  the line to the detail lines and pr-1.py joins it to the last detail line; the document
  of four lines with one black and one white marker yields a single item.
\<close>

theorem white_marker_line_counterexample:
  "seg_step None \<lparr>items = [], current_title = Some [65], current_details = [[12615, 32, 120]]\<rparr> [9655, 32, 66] =
     \<lparr>items = [], current_title = Some [65], current_details = [[12615, 32, 120], [9655, 32, 66]]\<rparr> \<and>
   seg_step None \<lparr>items = [], current_title = Some [65], current_details = [[12615, 32, 120]]\<rparr> [9658, 32, 66] =
     \<lparr>items = [], current_title = Some [65], current_details = [[12615, 32, 120], [9658, 32, 66]]\<rparr> \<and>
   seg_step_pr1 \<lparr>items = [], current_title = Some [65], current_details = [[12615, 32, 120]]\<rparr> [9655, 32, 66] =
     \<lparr>items = [], current_title = Some [65], current_details = [[12615, 32, 120] @ [32] @ [9655, 32, 66]]\<rparr> \<and>
   split_items [9654, 32, 65, 10, 12615, 32, 120, 10, 9655, 32, 66, 10, 12615, 32, 121] None = [\<lparr>item_title = [65], detail_lines = [[12615, 32, 120], [9655, 32, 66], [12615, 32, 121]]\<rparr>]"
  by (simp add: model_defs)

section \<open>The fallback item\<close>




section \<open>The noise trimmer\<close>

lemma strip_nonempty: "\<not> is_space c \<Longrightarrow> strip (c # xs) \<noteq> []"
  by (simp add: strip_def strip_chars_def lstrip_chars_def rstrip_chars_def dropWhile_append)

lemma contact_header_first:
  assumes "contact_header_pr1 t \<or> contact_header_pr2 t"
  obtains c r where "t = c # r" "c = 12615 \<or> c = 9675 \<or> c = 47928 \<or> c = 50672"
proof (cases t)
  case Nil
  with assms show ?thesis
    by (auto simp: contact_header_pr1_def contact_header_pr2_def inquiry_word_def lit_ws_lit_def)
next
  case (Cons c r)
  with assms have "c = 12615 \<or> c = 9675 \<or> c = 47928 \<or> c = 50672"
    by (auto simp: contact_header_pr1_def contact_header_pr2_def inquiry_word_def lit_ws_lit_def)
  with Cons show ?thesis by (rule that)
qed

lemma contact_truncation_nonempty:
  assumes "contact_header_pr1 t \<or> contact_header_pr2 t"
  shows "strip (re_split_head cut_at t) \<noteq> []"
proof -
  from assms obtain c r where t: "t = c # r"
    and c: "c = 12615 \<or> c = 9675 \<or> c = 47928 \<or> c = 50672"
    by (rule contact_header_first)
  from c have nc: "\<not> cut_at (c # r)"
    by (auto simp: cut_at_def bracket_tag_def survey_wording_def lit_ws_lit_def)
  from c have ns: "\<not> is_space c" by (auto simp: is_space_def)
  from nc have "re_split_head cut_at (c # r) = c # re_split_head cut_at r" by simp
  with ns t show ?thesis by (simp add: strip_nonempty)
qed

lemma noise_is_cut: "noise_at s \<Longrightarrow> cut_at s"
  by (auto simp: noise_at_def cut_at_def bracket_tag_def dest: in_set_dropD split: list.splits)

lemma trim_pr1_char:
  "trim_noise_lines_pr1 lns =
     concat (map (\<lambda>ln. if contact_header_pr1 (strip ln)
                        then [strip (re_split_head cut_at (strip ln))] else [ln])
       (takeWhile (\<lambda>ln. contact_header_pr1 (strip ln) \<or> \<not> re_search noise_at (strip ln)) lns))"
  by (induction lns) (auto simp: contact_truncation_nonempty)

lemma trim_pr2_char:
  "trim_noise_lines_pr2 lns =
     concat (map (\<lambda>ln. if contact_header_pr2 (strip ln)
                        then [strip (re_split_head cut_at (strip ln))] else [ln])
       (takeWhile (\<lambda>ln. contact_header_pr2 (strip ln) \<or> \<not> re_search noise_at (strip ln)) lns))"
  by (induction lns) (auto simp: contact_truncation_nonempty)

text \<open>
  Claim C7, as amended. \<open>trim_noise_lines\<close> scans the lines in order and stops at the
  first line that is no contact header and matches the noise pattern; that line and all
  later ones are dropped. A line that is a contact header never ends the scan: it is
  replaced by its text before the first occurrence of the cut pattern (a pair of square
  brackets with any content, also none, or the survey wording), stripped, and the scan
  goes on. That text is never empty, and every occurrence of the noise pattern is an
  occurrence of the cut pattern. Lines before the stop that are no contact header are kept
  as they are.
\<close>

theorem noise_trimmer_contract:
  "trim_noise_lines_pr1 lns =
     concat (map (\<lambda>ln. if contact_header_pr1 (strip ln)
                        then [strip (re_split_head cut_at (strip ln))] else [ln])
       (takeWhile (\<lambda>ln. contact_header_pr1 (strip ln) \<or> \<not> re_search noise_at (strip ln)) lns)) \<and>
   trim_noise_lines_pr2 lns =
     concat (map (\<lambda>ln. if contact_header_pr2 (strip ln)
                        then [strip (re_split_head cut_at (strip ln))] else [ln])
       (takeWhile (\<lambda>ln. contact_header_pr2 (strip ln) \<or> \<not> re_search noise_at (strip ln)) lns)) \<and>
   (contact_header_pr1 t \<or> contact_header_pr2 t \<longrightarrow> strip (re_split_head cut_at t) \<noteq> []) \<and>
   (noise_at s \<longrightarrow> cut_at s)"
  using trim_pr1_char trim_pr2_char contact_truncation_nonempty noise_is_cut by blast

theorem noise_trimmer_contract_witness:
  "trim_noise_lines_pr1 [[12615, 32, 45824, 49345, 32, 58, 32, 97], [12615, 32, 47928, 51032, 32, 58, 32, 48, 50, 45, 49, 32, 91, 45812, 45817, 93, 32, 48372, 53685], [54644, 45817, 32, 47700, 45684, 50640, 32, 45824, 54620, 32, 47564, 51313, 46020], [12615, 32, 108, 97, 116, 101, 114]] = [[12615, 32, 45824, 49345, 32, 58, 32, 97], [12615, 32, 47928, 51032, 32, 58, 32, 48, 50, 45, 49]] \<and>
   trim_noise_lines_pr2 [[12615, 32, 45824, 49345, 32, 58, 32, 97], [12615, 32, 47928, 51032, 32, 58, 32, 48, 50, 45, 49, 32, 91, 45812, 45817, 93, 32, 48372, 53685], [54644, 45817, 32, 47700, 45684, 50640, 32, 45824, 54620, 32, 47564, 51313, 46020], [12615, 32, 108, 97, 116, 101, 114]] = [[12615, 32, 45824, 49345, 32, 58, 32, 97], [12615, 32, 47928, 51032, 32, 58, 32, 48, 50, 45, 49]] \<and>
   strip (re_split_head cut_at [12615, 32, 47928, 51032, 32, 58, 32, 48, 50, 45, 49, 32, 91, 45812, 45817, 93, 32, 48372, 53685]) \<noteq> [] \<and> cut_at [54644, 45817, 32, 47700, 45684, 50640, 32, 45824, 54620, 32, 47564, 51313, 46020]"
  using noise_trimmer_contract [of "[[12615, 32, 45824, 49345, 32, 58, 32, 97], [12615, 32, 47928, 51032, 32, 58, 32, 48, 50, 45, 49, 32, 91, 45812, 45817, 93, 32, 48372, 53685], [54644, 45817, 32, 47700, 45684, 50640, 32, 45824, 54620, 32, 47564, 51313, 46020], [12615, 32, 108, 97, 116, 101, 114]]" "[12615, 32, 47928, 51032, 32, 58, 32, 48, 50, 45, 49, 32, 91, 45812, 45817, 93, 32, 48372, 53685]" "[54644, 45817, 32, 47700, 45684, 50640, 32, 45824, 54620, 32, 47564, 51313, 46020]"]
  by (simp add: model_defs)

text \<open>
  The claim as stated fails where the two patterns differ, at an empty pair of square
  brackets. The contact line "ieung munui [] 02-123" holds no occurrence of the noise
  pattern and is cut all the same, losing the number. The contact line
  "ieung munui [] botong" has its first noise occurrence at "botong" and is cut before
  the brackets.
\<close>

theorem contact_cut_without_noise_counterexample:
  "contact_header_pr1 [12615, 32, 47928, 51032, 32, 91, 93, 32, 48, 50, 45, 49, 50, 51] \<and> \<not> re_search noise_at [12615, 32, 47928, 51032, 32, 91, 93, 32, 48, 50, 45, 49, 50, 51] \<and>
   trim_noise_lines_pr1 [[12615, 32, 47928, 51032, 32, 91, 93, 32, 48, 50, 45, 49, 50, 51]] = [[12615, 32, 47928, 51032]] \<and> trim_noise_lines_pr2 [[12615, 32, 47928, 51032, 32, 91, 93, 32, 48, 50, 45, 49, 50, 51]] = [[12615, 32, 47928, 51032]] \<and>
   contact_header_pr1 [12615, 32, 47928, 51032, 32, 91, 93, 32, 48372, 53685] \<and> re_search noise_at [12615, 32, 47928, 51032, 32, 91, 93, 32, 48372, 53685] \<and> re_split_head noise_at [12615, 32, 47928, 51032, 32, 91, 93, 32, 48372, 53685] = [12615, 32, 47928, 51032, 32, 91, 93, 32] \<and>
   trim_noise_lines_pr1 [[12615, 32, 47928, 51032, 32, 91, 93, 32, 48372, 53685]] = [[12615, 32, 47928, 51032]] \<and> trim_noise_lines_pr2 [[12615, 32, 47928, 51032, 32, 91, 93, 32, 48372, 53685]] = [[12615, 32, 47928, 51032]]"
  by (simp add: model_defs)

section \<open>Canonical texts are fixed points of the canonicalization\<close>

lemma newline_run_Cons:
  "newline_run (c # cs) \<longleftrightarrow> is_space c \<and> (c = 10 \<or> newline_run cs)"
  by (auto simp: newline_run_def)

lemma newline_run_Nil: "\<not> newline_run []"
  by (simp add: newline_run_def)

lemma is_space_10: "is_space 10"
  by (simp add: is_space_def)

lemma collapse_blanks_fixed:
  "9 \<notin> set t \<Longrightarrow> successively single_space t \<Longrightarrow> collapse_blanks t = t"
proof (induction t rule: collapse_blanks.induct)
  case 1
  then show ?case by simp
next
  case (2 c cs)
  show ?case
  proof (cases "blank c")
    case True
    with "2.prems" have c: "c = 32" by (auto simp: blank_def)
    have dw: "dropWhile blank cs = cs"
    proof (cases cs)
      case Nil
      then show ?thesis by simp
    next
      case (Cons d ds)
      with "2.prems" c have "\<not> blank d" by (auto simp: blank_def single_space_def)
      with Cons show ?thesis by simp
    qed
    have "collapse_blanks (dropWhile blank cs) = dropWhile blank cs"
      using True "2.prems" dw by (intro "2.IH"(1)) (auto simp: successively_Cons)
    with True c dw show ?thesis by simp
  next
    case False
    have "collapse_blanks cs = cs"
      using False "2.prems" by (intro "2.IH"(2)) (auto simp: successively_Cons)
    with False show ?thesis by simp
  qed
qed

lemma no_newline_in_run:
  "successively bare_newline (a # xs) \<Longrightarrow> is_space a \<Longrightarrow> \<not> newline_run xs"
proof (induction xs arbitrary: a)
  case Nil
  then show ?case by (simp add: newline_run_Nil)
next
  case (Cons b ys)
  show ?case
  proof (cases "is_space b")
    case False
    then show ?thesis by (simp add: newline_run_Cons)
  next
    case True
    from Cons.prems have "b \<noteq> 10" by (auto simp: bare_newline_def)
    moreover from Cons.prems True have "\<not> newline_run ys"
      by (intro Cons.IH [of b]) auto
    ultimately show ?thesis by (simp add: newline_run_Cons)
  qed
qed

lemma collapse_around_newline_fixed:
  "successively bare_newline t \<Longrightarrow> collapse_around_newline t = t"
proof (induction t rule: collapse_around_newline.induct)
  case 1
  then show ?case by simp
next
  case (2 c cs)
  show ?case
  proof (cases "newline_run (c # cs)")
    case True
    then have sp: "is_space c" by (simp add: newline_run_Cons)
    with "2.prems" have "\<not> newline_run cs" by (rule no_newline_in_run)
    with True have c: "c = 10" by (simp add: newline_run_Cons)
    have dw: "dropWhile is_space cs = cs"
    proof (cases cs)
      case Nil
      then show ?thesis by simp
    next
      case (Cons d ds)
      with "2.prems" c have "\<not> is_space d" by (auto simp: bare_newline_def)
      with Cons show ?thesis by simp
    qed
    have "collapse_around_newline (dropWhile is_space cs) = dropWhile is_space cs"
      using True "2.prems" dw by (intro "2.IH"(1)) (auto simp: successively_Cons)
    with True c dw show ?thesis by simp
  next
    case False
    have "collapse_around_newline cs = cs"
      using False "2.prems" by (intro "2.IH"(2)) (auto simp: successively_Cons)
    with False show ?thesis by simp
  qed
qed

lemma collapse_newlines_fixed:
  "successively bare_newline t \<Longrightarrow> collapse_newlines t = t"
proof (induction t rule: collapse_newlines.induct)
  case 1
  then show ?case by simp
next
  case (2 c cs)
  have no: "\<not> (c = 10 \<and> prefix [10] cs)"
  proof
    assume a: "c = 10 \<and> prefix [10] cs"
    then obtain ds where "cs = 10 # ds" by (cases cs) auto
    with a "2.prems" show False by (auto simp: bare_newline_def is_space_def)
  qed
  have "collapse_newlines cs = cs"
    using no "2.prems" by (intro "2.IH"(2)) (auto simp: successively_Cons)
  with no show ?case by auto
qed

lemma canonical_fixed: "canonical t \<Longrightarrow> canon_str t = t"
proof -
  assume c: "canonical t"
  then have p: "\<forall>x\<in>set t. plain_char x" by (simp add: canonical_def list_all_iff)
  have 1: "remove_zero_width t = t"
    using p by (auto simp: remove_zero_width_def plain_char_def intro: filter_True)
  have 2: "replace_nbsp t = t"
    using p by (auto simp: replace_nbsp_def plain_char_def intro: map_idI)
  have 3: "collapse_blanks t = t"
    using p c by (intro collapse_blanks_fixed) (auto simp: canonical_def plain_char_def)
  have 4: "collapse_around_newline t = t"
    using c by (intro collapse_around_newline_fixed) (simp add: canonical_def)
  have 5: "collapse_newlines t = t"
    using c by (intro collapse_newlines_fixed) (simp add: canonical_def)
  have 6: "strip t = t"
    using c by (simp add: canonical_def strip_def strip_chars_def lstrip_chars_def rstrip_chars_def)
  show ?thesis by (simp add: canon_str_def 1 2 3 4 5 6)
qed

lemma set_collapse_blanks: "set (collapse_blanks s) \<subseteq> insert 32 (set s)"
proof (induction s rule: collapse_blanks.induct)
  case 1
  then show ?case by simp
next
  case (2 c cs)
  show ?case
  proof (cases "blank c")
    case True
    with 2 have "set (collapse_blanks (dropWhile blank cs)) \<subseteq> insert 32 (set (dropWhile blank cs))"
      by simp
    moreover have "set (dropWhile blank cs) \<subseteq> set cs" by (auto dest: set_dropWhileD)
    ultimately show ?thesis using True by auto
  next
    case False
    with 2 show ?thesis by auto
  qed
qed

lemma no_tab_collapse_blanks: "9 \<notin> set (collapse_blanks s)"
proof (induction s rule: collapse_blanks.induct)
  case 1
  then show ?case by simp
next
  case (2 c cs)
  then show ?case by (cases "blank c") (auto simp: blank_def)
qed

lemma dropWhile_head: "dropWhile P xs = [] \<or> (\<exists>d ds. dropWhile P xs = d # ds \<and> \<not> P d)"
proof (cases "dropWhile P xs")
  case Nil
  then show ?thesis by blast
next
  case (Cons d ds)
  then have "\<not> P d" using hd_dropWhile [of P xs] by (metis list.distinct(1) list.sel(1))
  with Cons show ?thesis by blast
qed

lemma single_space_collapse_blanks: "successively single_space (collapse_blanks s)"
proof (induction s rule: collapse_blanks.induct)
  case 1
  then show ?case by simp
next
  case (2 c cs)
  show ?case
  proof (cases "blank c")
    case True
    have ih: "successively single_space (collapse_blanks (dropWhile blank cs))"
      using True by (rule "2.IH"(1))
    from dropWhile_head [of blank cs]
    have "successively single_space (32 # collapse_blanks (dropWhile blank cs))"
    proof
      assume n: "dropWhile blank cs = []"
      show ?thesis unfolding n by simp
    next
      assume "\<exists>d ds. dropWhile blank cs = d # ds \<and> \<not> blank d"
      then obtain d ds where d: "dropWhile blank cs = d # ds" and nb: "\<not> blank d" by blast
      from nb have "d \<noteq> 32" by (auto simp: blank_def)
      then have "single_space 32 d" by (simp add: single_space_def)
      moreover have "collapse_blanks (d # ds) = d # collapse_blanks ds" using nb by simp
      ultimately show ?thesis using ih unfolding d by simp
    qed
    with True show ?thesis by simp
  next
    case False
    then have "c \<noteq> 32" by (auto simp: blank_def)
    then have "\<And>x. single_space c x" by (simp add: single_space_def)
    moreover have "successively single_space (collapse_blanks cs)" using False by (rule "2.IH"(2))
    ultimately have "successively single_space (c # collapse_blanks cs)"
      by (simp add: successively_Cons)
    with False show ?thesis by simp
  qed
qed

lemma set_collapse_around_newline: "set (collapse_around_newline s) \<subseteq> insert 10 (set s)"
proof (induction s rule: collapse_around_newline.induct)
  case 1
  then show ?case by simp
next
  case (2 c cs)
  show ?case
  proof (cases "newline_run (c # cs)")
    case True
    with 2 have "set (collapse_around_newline (dropWhile is_space cs)) \<subseteq>
        insert 10 (set (dropWhile is_space cs))" by simp
    moreover have "set (dropWhile is_space cs) \<subseteq> set cs" by (auto dest: set_dropWhileD)
    ultimately show ?thesis using True by auto
  next
    case False
    with 2 show ?thesis by auto
  qed
qed

lemma successively_suffix: "successively P xs \<Longrightarrow> successively P (dropWhile Q xs)"
  by (induction xs) (auto simp: successively_Cons)

lemma collapse_around_newline_head:
  "collapse_around_newline (d # ds) = (if newline_run (d # ds) then 10 else d) #
     tl (collapse_around_newline (d # ds))"
  by simp

lemma successively_head:
  "successively P ys \<Longrightarrow> ys = y # zs \<Longrightarrow> P x y \<Longrightarrow> successively P (x # ys)"
  by simp

lemma single_space_collapse_around_newline:
  "successively single_space s \<Longrightarrow> successively single_space (collapse_around_newline s)"
proof (induction s rule: collapse_around_newline.induct)
  case 1
  then show ?case by simp
next
  case (2 c cs)
  from "2.prems" have rest: "successively single_space cs" by (auto simp: successively_Cons)
  show ?case
  proof (cases "newline_run (c # cs)")
    case True
    have "successively single_space (dropWhile is_space cs)"
      using rest by (rule successively_suffix)
    with True have "successively single_space (collapse_around_newline (dropWhile is_space cs))"
      by (rule "2.IH"(1))
    moreover have "\<And>x. single_space 10 x" by (simp add: single_space_def)
    ultimately have "successively single_space (10 # collapse_around_newline (dropWhile is_space cs))"
      by (simp add: successively_Cons)
    with True show ?thesis by simp
  next
    case False
    have ih: "successively single_space (collapse_around_newline cs)"
      using False rest by (rule "2.IH"(2))
    have "successively single_space (c # collapse_around_newline cs)"
    proof (cases cs)
      case Nil
      then show ?thesis by simp
    next
      case (Cons d ds)
      from "2.prems" Cons have cd: "single_space c d" by simp
      have "single_space c (if newline_run (d # ds) then 10 else d)"
        using cd by (simp add: single_space_def)
      with ih collapse_around_newline_head [of d ds] Cons show ?thesis
        by (metis successively_head)
    qed
    with False show ?thesis by simp
  qed
qed

lemma bare_newline_collapse_around_newline:
  "successively bare_newline (collapse_around_newline s)"
proof (induction s rule: collapse_around_newline.induct)
  case 1
  then show ?case by simp
next
  case (2 c cs)
  show ?case
  proof (cases "newline_run (c # cs)")
    case True
    have ih: "successively bare_newline (collapse_around_newline (dropWhile is_space cs))"
      using True by (rule "2.IH"(1))
    from dropWhile_head [of is_space cs]
    have "successively bare_newline (10 # collapse_around_newline (dropWhile is_space cs))"
    proof
      assume n: "dropWhile is_space cs = []"
      show ?thesis unfolding n by simp
    next
      assume "\<exists>d ds. dropWhile is_space cs = d # ds \<and> \<not> is_space d"
      then obtain d ds where d: "dropWhile is_space cs = d # ds" and ns: "\<not> is_space d" by blast
      from ns have "d \<noteq> 10" using is_space_10 by auto
      with ns have "bare_newline 10 d" by (simp add: bare_newline_def)
      moreover from ns have "\<not> newline_run (d # ds)" by (simp add: newline_run_Cons)
      then have "collapse_around_newline (d # ds) = d # collapse_around_newline ds" by simp
      ultimately show ?thesis using ih unfolding d by simp
    qed
    with True show ?thesis by simp
  next
    case False
    have ih: "successively bare_newline (collapse_around_newline cs)"
      using False by (rule "2.IH"(2))
    have "successively bare_newline (c # collapse_around_newline cs)"
    proof (cases cs)
      case Nil
      then show ?thesis by simp
    next
      case (Cons d ds)
      have "bare_newline c (if newline_run (d # ds) then 10 else d)"
      proof (cases "newline_run (d # ds)")
        case True
        with False Cons have "\<not> is_space c" by (auto simp: newline_run_Cons)
        moreover from this have "c \<noteq> 10" using is_space_10 by auto
        ultimately show ?thesis using True by (simp add: bare_newline_def)
      next
        case nl: False
        from False Cons have f: "\<not> (is_space c \<and> (c = 10 \<or> newline_run (d # ds)))"
          by (simp add: newline_run_Cons)
        have "\<not> (is_space c \<and> d = 10)"
        proof
          assume a: "is_space c \<and> d = 10"
          then have "newline_run (d # ds)" using is_space_10 by (simp add: newline_run_Cons)
          with nl show False by simp
        qed
        moreover have "\<not> (c = 10 \<and> is_space d)"
        proof
          assume "c = 10 \<and> is_space d"
          with f show False using is_space_10 by simp
        qed
        ultimately show ?thesis using nl by (simp add: bare_newline_def)
      qed
      with ih collapse_around_newline_head [of d ds] Cons show ?thesis
        by (metis successively_head)
    qed
    with False show ?thesis by simp
  qed
qed

lemma rstrip_prefix: "rev (dropWhile Q (rev xs)) @ rev (takeWhile Q (rev xs)) = xs"
proof -
  have "rev (takeWhile Q (rev xs) @ dropWhile Q (rev xs)) = xs" by simp
  then show ?thesis by (simp only: rev_append)
qed

lemma successively_rstrip:
  assumes "successively P xs"
  shows "successively P (rev (dropWhile Q (rev xs)))"
proof -
  from assms
  have "successively P (rev (dropWhile Q (rev xs)) @ rev (takeWhile Q (rev xs)))"
    by (simp only: rstrip_prefix)
  then show ?thesis by (simp only: successively_append_iff)
qed

lemma successively_strip: "successively P xs \<Longrightarrow> successively P (strip xs)"
  unfolding strip_def strip_chars_def lstrip_chars_def rstrip_chars_def
  by (intro successively_rstrip successively_suffix)

lemma set_strip: "set (strip s) \<subseteq> set s"
proof
  fix x assume "x \<in> set (strip s)"
  then have "x \<in> set (dropWhile is_space (rev (dropWhile is_space s)))"
    by (simp add: strip_def strip_chars_def lstrip_chars_def rstrip_chars_def)
  then have "x \<in> set (rev (dropWhile is_space s))" by (rule set_dropWhileD)
  then have "x \<in> set (dropWhile is_space s)" by simp
  then show "x \<in> set s" by (rule set_dropWhileD)
qed

lemma dropWhile_snoc: "\<not> P a \<Longrightarrow> \<exists>z. dropWhile P (ys @ [a]) = z @ [a]"
  by (induction ys) auto

lemma strip_unfold: "strip s = rev (dropWhile is_space (rev (dropWhile is_space s)))"
  by (simp only: strip_def strip_chars_def lstrip_chars_def rstrip_chars_def)

lemma strip_ends:
  "dropWhile is_space (strip s) = strip s \<and> dropWhile is_space (rev (strip s)) = rev (strip s)"
proof
  have "rev (strip s) = dropWhile is_space (rev (dropWhile is_space s))"
    by (simp only: strip_unfold rev_rev_ident)
  then show "dropWhile is_space (rev (strip s)) = rev (strip s)"
    by (simp only: dropWhile_idem)
next
  from dropWhile_head [of is_space s]
  show "dropWhile is_space (strip s) = strip s"
  proof
    assume n: "dropWhile is_space s = []"
    have "strip s = rev (dropWhile is_space (rev []))" by (simp only: strip_unfold n)
    then have e: "strip s = []" by (simp only: rev.simps dropWhile.simps)
    show ?thesis by (simp only: e dropWhile.simps)
  next
    assume "\<exists>d ds. dropWhile is_space s = d # ds \<and> \<not> is_space d"
    then obtain a r where x: "dropWhile is_space s = a # r" and na: "\<not> is_space a" by blast
    from na dropWhile_snoc [of is_space a "rev r"]
    obtain z where z: "dropWhile is_space (rev r @ [a]) = z @ [a]" by blast
    have "strip s = rev (dropWhile is_space (rev (a # r)))" by (simp only: strip_unfold x)
    then have "strip s = rev (dropWhile is_space (rev r @ [a]))" by (simp only: rev.simps)
    then have "strip s = rev (z @ [a])" by (simp only: z)
    then have e: "strip s = a # rev z" by (simp only: rev_append rev.simps append.simps)
    have "dropWhile is_space (a # rev z) = a # rev z" using na by simp
    then show ?thesis by (simp only: e)
  qed
qed

lemma canon_str_canonical: "canonical (canon_str s)"
proof -
  let ?s2 = "replace_nbsp (remove_zero_width s)"
  let ?s3 = "collapse_blanks ?s2"
  let ?s4 = "collapse_around_newline ?s3"
  have p2: "\<forall>c\<in>set ?s2. \<not> zero_width c \<and> c \<noteq> 160 \<and> c \<noteq> 12288"
    by (auto simp: replace_nbsp_def remove_zero_width_def zero_width_def)
  have plain: "plain_char 32" "plain_char 10" by (simp_all add: plain_char_def zero_width_def)
  have p3: "\<forall>c\<in>set ?s3. plain_char c"
  proof
    fix c assume c: "c \<in> set ?s3"
    then have "c = 32 \<or> c \<in> set ?s2" using set_collapse_blanks [of ?s2] by blast
    moreover have "c \<noteq> 9" using c no_tab_collapse_blanks [of ?s2] by blast
    ultimately show "plain_char c" using p2 plain by (auto simp: plain_char_def)
  qed
  have p4: "\<forall>c\<in>set ?s4. plain_char c"
  proof
    fix c assume "c \<in> set ?s4"
    then have "c = 10 \<or> c \<in> set ?s3" using set_collapse_around_newline [of ?s3] by blast
    then show "plain_char c" using p3 plain by blast
  qed
  have b4: "successively bare_newline ?s4" by (rule bare_newline_collapse_around_newline)
  have s4: "successively single_space ?s4"
    by (intro single_space_collapse_around_newline single_space_collapse_blanks)
  have s5: "collapse_newlines ?s4 = ?s4"
    using b4 by (rule collapse_newlines_fixed)
  have t: "canon_str s = strip ?s4" unfolding canon_str_def s5 ..
  have "list_all plain_char (strip ?s4)"
    using p4 set_strip [of ?s4] unfolding list_all_iff by blast
  moreover have "successively single_space (strip ?s4)" using s4 by (rule successively_strip)
  moreover have "successively bare_newline (strip ?s4)" using b4 by (rule successively_strip)
  ultimately show ?thesis using strip_ends [of ?s4] unfolding canonical_def t by blast
qed

lemma canon_str_idem: "canon_str (canon_str s) = canon_str s"
  using canon_str_canonical by (rule canonical_fixed)

section \<open>Facts about the deduplication\<close>

lemma canon_text_idem: "canon_text (Some (canon_text x)) = canon_text x"
proof (cases x)
  case None
  have "canon_str [] = []" by (simp add: model_defs)
  with None show ?thesis by (simp add: canon_text_def)
next
  case (Some s)
  then show ?thesis by (simp add: canon_text_def canon_str_idem)
qed

lemma canon_row_idem: "canon_row (canon_row r) = canon_row r"
  by (simp add: canon_row_def canon_text_idem)

lemma drop_duplicates_subset: "set (drop_duplicates seen rs) \<subseteq> set rs"
  by (induction rs arbitrary: seen) auto

lemma drop_duplicates_fresh:
  "compare_key ` set (drop_duplicates seen rs) \<inter> set seen = {}"
proof (induction rs arbitrary: seen)
  case Nil
  then show ?case by simp
next
  case (Cons r rs)
  show ?case
  proof (cases "compare_key r \<in> set seen")
    case True
    then show ?thesis using Cons [of seen] by simp
  next
    case False
    then show ?thesis using Cons [of "compare_key r # seen"] by auto
  qed
qed

lemma drop_duplicates_distinct: "distinct (map compare_key (drop_duplicates seen rs))"
proof (induction rs arbitrary: seen)
  case Nil
  then show ?case by simp
next
  case (Cons r rs)
  show ?case
  proof (cases "compare_key r \<in> set seen")
    case True
    then show ?thesis using Cons by simp
  next
    case False
    have "compare_key r \<notin> compare_key ` set (drop_duplicates (compare_key r # seen) rs)"
      using drop_duplicates_fresh [of "compare_key r # seen" rs] by auto
    with False show ?thesis using Cons by simp
  qed
qed

lemma drop_duplicates_distinct_id:
  "distinct (map compare_key rs) \<Longrightarrow> compare_key ` set rs \<inter> set seen = {} \<Longrightarrow>
   drop_duplicates seen rs = rs"
proof (induction rs arbitrary: seen)
  case Nil
  then show ?case by simp
next
  case (Cons r rs)
  from Cons.prems have "compare_key r \<notin> set seen" by auto
  moreover from Cons.prems have "drop_duplicates (compare_key r # seen) rs = rs"
    by (intro Cons.IH) auto
  ultimately show ?case by simp
qed

lemma drop_duplicates_subseq: "subseq (drop_duplicates seen rs) rs"
  by (induction rs arbitrary: seen) auto

lemma drop_duplicates_find:
  "k \<notin> set seen \<Longrightarrow>
   find (\<lambda>r. compare_key r = k) (drop_duplicates seen rs) = find (\<lambda>r. compare_key r = k) rs"
proof (induction rs arbitrary: seen)
  case Nil
  then show ?case by simp
next
  case (Cons r rs)
  show ?case
  proof (cases "compare_key r \<in> set seen")
    case True
    with Cons.prems have "compare_key r \<noteq> k" by auto
    with True Cons show ?thesis by simp
  next
    case False
    show ?thesis
    proof (cases "compare_key r = k")
      case True
      with False show ?thesis by simp
    next
      case ne: False
      with Cons.prems have "k \<notin> set (compare_key r # seen)" by auto
      then have "find (\<lambda>r. compare_key r = k) (drop_duplicates (compare_key r # seen) rs) =
          find (\<lambda>r. compare_key r = k) rs" by (rule Cons.IH)
      with False ne show ?thesis by simp
    qed
  qed
qed

section \<open>Deduplication is idempotent\<close>

text \<open>
  Claim C9. The deduplication is idempotent: for every sequence of records, applying
  \<open>deduplicate\<close> to the result of \<open>deduplicate\<close> gives that result again.
\<close>

theorem deduplicate_idempotent: "deduplicate (deduplicate rs) = deduplicate rs"
proof -
  have "\<forall>r\<in>set (deduplicate rs). canon_row r = r"
  proof
    fix r assume "r \<in> set (deduplicate rs)"
    then have "r \<in> set (map canon_row rs)"
      using drop_duplicates_subset [of "[]" "map canon_row rs"] by (auto simp: deduplicate_def)
    then obtain r0 where "r = canon_row r0" by auto
    then show "canon_row r = r" by (simp add: canon_row_idem)
  qed
  then have m: "map canon_row (deduplicate rs) = deduplicate rs" by (simp add: map_idI)
  have "distinct (map compare_key (deduplicate rs))"
    by (simp add: deduplicate_def drop_duplicates_distinct)
  then have "drop_duplicates [] (deduplicate rs) = deduplicate rs"
    by (rule drop_duplicates_distinct_id) simp
  with m show ?thesis by (simp add: deduplicate_def [of "deduplicate rs"])
qed

section \<open>What the deduplication returns\<close>

text \<open>
  Claim C3, as amended. \<open>save_records\<close> overwrites every column except the source URL
  and the full text with its canonical text and then drops duplicates. So: the result is
  a subsequence of the canonicalized records in encounter order; no two kept records
  agree in all compared columns; for every key the kept record with that key is the first
  canonicalized record with it, so two records are duplicates exactly when their
  canonicalized fields other than source URL and full text are equal, and the first one
  is kept. The compared columns of a kept record hold the canonical texts (a missing
  value is the empty string); source URL and full text take no part in the comparison and
  are kept as they were.
\<close>

theorem deduplicate_postcondition:
  "subseq (deduplicate rs) (map canon_row rs) \<and>
   distinct (map compare_key (deduplicate rs)) \<and>
   find (\<lambda>r. compare_key r = k) (deduplicate rs) =
     find (\<lambda>r. compare_key r = k) (map canon_row rs) \<and>
   compare_key (canon_row r) = map (\<lambda>x. Some (canon_text x)) (compare_key r) \<and>
   compare_key (r\<lparr>col_source_url := u, col_full_text := f\<rparr>) = compare_key r \<and>
   col_source_url (canon_row r) = col_source_url r \<and>
   col_full_text (canon_row r) = col_full_text r"
proof -
  have "subseq (deduplicate rs) (map canon_row rs)"
    by (simp add: deduplicate_def drop_duplicates_subseq)
  moreover have "distinct (map compare_key (deduplicate rs))"
    by (simp add: deduplicate_def drop_duplicates_distinct)
  moreover have "find (\<lambda>r. compare_key r = k) (deduplicate rs) =
     find (\<lambda>r. compare_key r = k) (map canon_row rs)"
    unfolding deduplicate_def by (rule drop_duplicates_find) simp
  moreover have "compare_key (canon_row r) = map (\<lambda>x. Some (canon_text x)) (compare_key r)"
    by (simp add: compare_key_def canon_row_def)
  moreover have "compare_key (r\<lparr>col_source_url := u,
       col_full_text := f\<rparr>) = compare_key r"
    by (simp add: compare_key_def)
  moreover have "col_source_url (canon_row r) = col_source_url r"
    by (simp add: canon_row_def)
  moreover have "col_full_text (canon_row r) = col_full_text r"
    by (simp add: canon_row_def)
  ultimately show ?thesis by blast
qed

text \<open>
  The claim as stated fails where it says that canonicalization serves the comparison
  only. Two records differ in the source URL and in the spacing of the content. One
  record is kept, the first, with its source URL and full text; but its content is the
  canonical text, with one space, and its missing columns are empty strings: the kept
  record is not the first record as it was.
\<close>

theorem canonical_values_are_kept_counterexample:
  "deduplicate [\<lparr>col_region = Some [51473, 44396], col_source_category = Some [51221,
       52293], col_item_title = Some [84], col_target = None, col_application_period = None,
       col_content = Some [97, 32, 32, 98], col_application_method = None, col_contact = None,
       col_notes = None, col_purchase_method = None, col_location = None,
       col_full_text = Some [9654, 32, 84, 10, 97, 32, 32, 98], col_source_url = Some [117,
       49]\<rparr>,
      \<lparr>col_region = Some [51473, 44396], col_source_category = Some [51221, 52293],
       col_item_title = Some [84], col_target = None, col_application_period = None,
       col_content = Some [97, 32, 98], col_application_method = None, col_contact = None,
       col_notes = None, col_purchase_method = None, col_location = None,
       col_full_text = Some [9654, 32, 84, 10, 97, 32, 32, 98], col_source_url = Some [117,
       50]\<rparr>] =
     [\<lparr>col_region = Some [51473, 44396], col_source_category = Some [51221, 52293],
       col_item_title = Some [84], col_target = Some [], col_application_period = Some [],
       col_content = Some [97, 32, 98], col_application_method = Some [], col_contact = Some [],
       col_notes = Some [], col_purchase_method = Some [], col_location = Some [],
       col_full_text = Some [9654, 32, 84, 10, 97, 32, 32, 98], col_source_url = Some [117,
       49]\<rparr>] \<and>
   deduplicate [\<lparr>col_region = Some [51473, 44396], col_source_category = Some [51221,
       52293], col_item_title = Some [84], col_target = None, col_application_period = None,
       col_content = Some [97, 32, 32, 98], col_application_method = None, col_contact = None,
       col_notes = None, col_purchase_method = None, col_location = None,
       col_full_text = Some [9654, 32, 84, 10, 97, 32, 32, 98], col_source_url = Some [117,
       49]\<rparr>,
      \<lparr>col_region = Some [51473, 44396], col_source_category = Some [51221, 52293],
       col_item_title = Some [84], col_target = None, col_application_period = None,
       col_content = Some [97, 32, 98], col_application_method = None, col_contact = None,
       col_notes = None, col_purchase_method = None, col_location = None,
       col_full_text = Some [9654, 32, 84, 10, 97, 32, 32, 98], col_source_url = Some [117,
       50]\<rparr>] \<noteq>
     [\<lparr>col_region = Some [51473, 44396], col_source_category = Some [51221, 52293],
       col_item_title = Some [84], col_target = None, col_application_period = None,
       col_content = Some [97, 32, 32, 98], col_application_method = None, col_contact = None,
       col_notes = None, col_purchase_method = None, col_location = None,
       col_full_text = Some [9654, 32, 84, 10, 97, 32, 32, 98], col_source_url = Some [117,
       49]\<rparr>]"
  by (simp add: model_defs)

section \<open>The full-text block\<close>

lemma sublist_after: "sublist l ys \<Longrightarrow> sublist l (ps @ ys)"
  by (simp add: sublist_append)

lemma sublist_py_join: "l \<in> set ls \<Longrightarrow> sublist l (py_join sep ls)"
proof (induction sep ls rule: py_join.induct)
  case (1 sep)
  then show ?case by simp
next
  case (2 sep x)
  then show ?case by simp
next
  case (3 sep x y ys)
  show ?case
  proof (cases "l = x")
    case True
    then show ?thesis by (simp add: sublist_append_rightI)
  next
    case False
    with 3 have "sublist l (py_join sep (y # ys))" by simp
    then have "sublist l ((x @ sep) @ py_join sep (y # ys))"
      by (rule sublist_after)
    then show ?thesis by simp
  qed
qed

lemma sublist_block_body: "l \<in> set ls \<Longrightarrow> sublist (strip l) (block_body ls)"
proof (cases "strip l = []")
  case True
  then show ?thesis by simp
next
  case False
  assume "l \<in> set ls"
  with False have "strip l \<in> set (filter (\<lambda>l. l \<noteq> []) (map strip ls))" by auto
  then show ?thesis unfolding block_body_def by (rule sublist_py_join)
qed

lemma item_block_text_keeps:
  "sublist (strip (item_title it)) (item_block_text it) \<and>
   (\<forall>l\<in>set (detail_lines it). sublist (strip l) (item_block_text it))"
proof (intro conjI ballI)
  show "sublist (strip (item_title it)) (item_block_text it)"
  proof (cases "strip (item_title it) = []")
    case True
    then show ?thesis by simp
  next
    case False
    have "sublist (strip (item_title it))
            ([9654, 32] @ strip (item_title it) @ [10] @ block_body (detail_lines it))"
      by (rule sublist_appendI)
    moreover have "sublist (strip (item_title it)) ([9654, 32] @ strip (item_title it) @ [])"
      by (rule sublist_appendI)
    ultimately show ?thesis using False by (simp add: item_block_text_def)
  qed
next
  fix l assume l: "l \<in> set (detail_lines it)"
  show "sublist (strip l) (item_block_text it)"
  proof (cases "strip l = []")
    case True
    then show ?thesis by simp
  next
    case False
    from l have sb: "sublist (strip l) (block_body (detail_lines it))"
      by (rule sublist_block_body)
    with False have ne: "block_body (detail_lines it) \<noteq> []" by auto
    from sb have "sublist (strip l)
        (([9654, 32] @ strip (item_title it) @ [10]) @ block_body (detail_lines it))"
      by (rule sublist_after)
    with sb ne show ?thesis by (simp add: item_block_text_def)
  qed
qed

lemma full_text_of_keeps:
  "sublist (item_title it) (full_text_of it) \<and>
   (\<forall>l\<in>set (detail_lines it). sublist l (full_text_of it))"
proof (intro conjI ballI)
  show "sublist (item_title it) (full_text_of it)"
    unfolding full_text_of_def by (rule sublist_appendI)
next
  fix l assume "l \<in> set (detail_lines it)"
  then have "sublist l (py_join [10] (detail_lines it))" by (rule sublist_py_join)
  then have "sublist l (([9654, 32] @ item_title it @ [10]) @ py_join [10] (detail_lines it))"
    by (rule sublist_after)
  then show "sublist l (full_text_of it)" by (simp add: full_text_of_def)
qed

lemma strip_fixed_iff:
  "strip s = s \<longleftrightarrow> s = [] \<or> (\<not> is_space (hd s) \<and> \<not> is_space (last s))"
proof
  assume e: "strip s = s"
  from strip_ends [of s] have "dropWhile is_space s = s" "dropWhile is_space (rev s) = rev s"
    by (simp_all only: e)
  then have "s = [] \<or> \<not> is_space (hd s)" "rev s = [] \<or> \<not> is_space (hd (rev s))"
    by (simp_all only: dropWhile_eq_self_iff)
  then show "s = [] \<or> (\<not> is_space (hd s) \<and> \<not> is_space (last s))"
    by (auto simp: hd_rev)
next
  assume a: "s = [] \<or> (\<not> is_space (hd s) \<and> \<not> is_space (last s))"
  then have "s = [] \<or> \<not> is_space (hd s)" "rev s = [] \<or> \<not> is_space (hd (rev s))"
    by (auto simp: hd_rev)
  then have "dropWhile is_space s = s" "dropWhile is_space (rev s) = rev s"
    by (simp_all only: dropWhile_eq_self_iff)
  then show "strip s = s" by (simp only: strip_unfold rev_rev_ident)
qed

lemma strip_strip: "strip (strip s) = strip s"
proof -
  from strip_ends [of s]
  have "dropWhile is_space (strip s) = strip s" "dropWhile is_space (rev (strip s)) = rev (strip s)"
    by blast+
  then show ?thesis by (simp only: strip_unfold [of "strip s"] rev_rev_ident)
qed

lemma joined_lines_trimmed:
  assumes "a \<noteq> []" "strip a = a" "b \<noteq> []" "strip b = b"
  shows "strip (a @ [32] @ b) = a @ [32] @ b"
proof -
  from assms have "\<not> is_space (hd a)" "\<not> is_space (last b)"
    by (simp_all add: strip_fixed_iff)
  with assms(1,3) show ?thesis by (simp add: strip_fixed_iff)
qed

lemma norm_lines_trimmed: "l \<in> set (norm_lines text) \<Longrightarrow> l \<noteq> [] \<and> strip l = l"
  by (auto simp: norm_lines_def strip_strip)

lemma trim_pr1_trimmed:
  "\<forall>l\<in>set ls. l \<noteq> [] \<and> strip l = l \<Longrightarrow>
   \<forall>l\<in>set (trim_noise_lines_pr1 ls). l \<noteq> [] \<and> strip l = l"
  by (induction ls) (auto simp: strip_strip)

lemma flush_pr1_good: "good_state st \<Longrightarrow> good_state (flush_pr1 st)"
  by (auto simp: good_state_def flush_pr1_def good_item_def split: option.splits)

lemma seg_step_pr1_good:
  assumes "good_state st" "ln \<noteq> []" "strip ln = ln"
  shows "good_state (seg_step_pr1 st ln)"
proof -
  have title: "\<And>t. good_state ((flush_pr1 st)\<lparr>current_title := Some (strip t)\<rparr>)"
    using flush_pr1_good [OF assms(1)] by (auto simp: good_state_def strip_strip)
  have app: "good_state (st\<lparr>current_details := current_details st @ [ln]\<rparr>)"
    using assms by (auto simp: good_state_def)
  have one: "good_state (st\<lparr>current_details := [ln]\<rparr>)"
    using assms by (auto simp: good_state_def)
  have merge: "current_details st \<noteq> [] \<Longrightarrow>
      good_state (st\<lparr>current_details := butlast (current_details st) @
                                          [last (current_details st) @ [32] @ ln]\<rparr>)"
  proof -
    assume ne: "current_details st \<noteq> []"
    with assms(1) have l: "last (current_details st) \<noteq> [] \<and>
        strip (last (current_details st)) = last (current_details st)"
      by (auto simp: good_state_def)
    then have "strip (last (current_details st) @ [32] @ ln) = last (current_details st) @ [32] @ ln"
      using assms(2,3) by (intro joined_lines_trimmed) auto
    moreover have "\<forall>l\<in>set (butlast (current_details st)). l \<noteq> [] \<and> strip l = l"
      using assms(1) by (auto simp: good_state_def dest: in_set_butlastD)
    ultimately show ?thesis using assms(1) by (auto simp: good_state_def)
  qed
  show ?thesis
    unfolding seg_step_pr1_def
    using assms(1) title app one merge by (auto split: option.splits)
qed

lemma seg_loop_pr1_good:
  "good_state st \<Longrightarrow> \<forall>l\<in>set ls. l \<noteq> [] \<and> strip l = l \<Longrightarrow>
   good_state (foldl seg_step_pr1 st ls)"
proof (induction ls arbitrary: st)
  case Nil
  then show ?case by simp
next
  case (Cons l ls)
  from Cons.prems have "good_state (seg_step_pr1 st l)" by (intro seg_step_pr1_good) auto
  with Cons show ?case by simp
qed

lemma split_items_pr1_good:
  assumes "strip (title_or_placeholder fallback_title) = title_or_placeholder fallback_title"
    and "it \<in> set (split_items_pr1 text fallback_title)"
  shows "good_item it"
proof -
  have "good_state seg_init" by (simp add: good_state_def seg_init_def)
  then have "good_state (flush_pr1 (foldl seg_step_pr1 seg_init (norm_lines text)))"
    by (intro flush_pr1_good seg_loop_pr1_good) (auto simp: norm_lines_trimmed)
  then have e: "\<forall>i\<in>set (explicit_items_pr1 (norm_lines text)). good_item i"
    by (simp add: good_state_def explicit_items_pr1_def)
  have f: "good_item \<lparr>item_title = title_or_placeholder fallback_title,
                       detail_lines = norm_lines text\<rparr>"
    using assms(1) by (simp add: good_item_def norm_lines_trimmed)
  from assms(2) e f show ?thesis by (auto simp: split_items_pr1_def split: if_splits)
qed

lemma full_text_pr1_verbatim:
  assumes "good_item it"
  shows "sublist (item_title it) (full_text_pr1 it) \<and>
         (\<forall>l\<in>set (trim_noise_lines_pr1 (detail_lines it)). sublist l (full_text_pr1 it))"
proof -
  let ?c = "\<lparr>item_title = item_title it, detail_lines = trim_noise_lines_pr1 (detail_lines it)\<rparr>"
  from assms have t: "\<forall>l\<in>set (trim_noise_lines_pr1 (detail_lines it)). l \<noteq> [] \<and> strip l = l"
    by (intro trim_pr1_trimmed) (simp add: good_item_def)
  have "sublist (strip (item_title ?c)) (item_block_text ?c)"
    using item_block_text_keeps [of ?c] by blast
  then have 1: "sublist (item_title it) (full_text_pr1 it)"
    using assms by (simp add: good_item_def full_text_pr1_def)
  have "\<forall>l\<in>set (detail_lines ?c). sublist (strip l) (item_block_text ?c)"
    using item_block_text_keeps [of ?c] by blast
  then have 2: "\<forall>l\<in>set (trim_noise_lines_pr1 (detail_lines it)). sublist l (full_text_pr1 it)"
    using t by (simp add: full_text_pr1_def)
  from 1 2 show ?thesis ..
qed

text \<open>
  Claim C2. Whatever the classification of the lines does, the full-text block of an
  item holds the title and every detail line it is built from: it is made of the title
  and the lines alone, never of the fields. In junggu.py the block is the concatenation
  of the title and the detail lines as they are. In pr-1.py and pr-2.py
  \<open>item_block_text\<close> strips the title and every line first, so the block holds the
  stripped title and every stripped line. For the items that \<open>split_items\<close> of pr-1.py
  produces (the fallback title being stripped, as the page heading is) nothing is
  stripped away: the block of \<open>build_records\<close> holds the title and every line given to the
  accumulator as they are.
\<close>

theorem full_text_keeps_title_and_lines:
  "sublist (item_title it) (full_text_of it) \<and>
   (\<forall>l\<in>set (detail_lines it). sublist l (full_text_of it)) \<and>
   sublist (strip (item_title it)) (item_block_text it) \<and>
   (\<forall>l\<in>set (detail_lines it). sublist (strip l) (item_block_text it)) \<and>
   (strip (title_or_placeholder fallback_title) = title_or_placeholder fallback_title \<longrightarrow>
      (\<forall>i\<in>set (split_items_pr1 text fallback_title).
         sublist (item_title i) (full_text_pr1 i) \<and>
         (\<forall>l\<in>set (trim_noise_lines_pr1 (detail_lines i)). sublist l (full_text_pr1 i))))"
proof -
  have "strip (title_or_placeholder fallback_title) = title_or_placeholder fallback_title \<longrightarrow>
      (\<forall>i\<in>set (split_items_pr1 text fallback_title).
         sublist (item_title i) (full_text_pr1 i) \<and>
         (\<forall>l\<in>set (trim_noise_lines_pr1 (detail_lines i)). sublist l (full_text_pr1 i)))"
    using split_items_pr1_good full_text_pr1_verbatim by blast
  with full_text_of_keeps [of it] item_block_text_keeps [of it] show ?thesis by blast
qed

theorem full_text_keeps_title_and_lines_witness:
  "sublist [65] (full_text_of \<lparr>item_title = [65], detail_lines = [[66, 58], [67]]\<rparr>) \<and>
   sublist [66, 58] (full_text_of \<lparr>item_title = [65], detail_lines = [[66, 58], [67]]\<rparr>) \<and>
   sublist (strip [32, 65]) (item_block_text \<lparr>item_title = [32, 65], detail_lines = [[66, 58], [67]]\<rparr>) \<and>
   sublist (strip [67]) (item_block_text \<lparr>item_title = [32, 65], detail_lines = [[66, 58], [67]]\<rparr>) \<and>
   split_items_pr1 [9654, 32, 65, 10, 12615, 32, 120, 10, 12615, 32, 47928, 51032, 32, 58, 32, 48, 50, 32, 91, 116, 93] None = [\<lparr>item_title = [65], detail_lines = [[12615, 32, 120], [12615, 32, 47928, 51032, 32, 58, 32, 48, 50, 32, 91, 116, 93]]\<rparr>] \<and>
   trim_noise_lines_pr1 (detail_lines \<lparr>item_title = [65], detail_lines = [[12615, 32, 120], [12615, 32, 47928, 51032, 32, 58, 32, 48, 50, 32, 91, 116, 93]]\<rparr>) = [[12615, 32, 120], [12615, 32, 47928, 51032, 32, 58, 32, 48, 50]] \<and>
   sublist [12615, 32, 120] (full_text_pr1 \<lparr>item_title = [65], detail_lines = [[12615, 32, 120], [12615, 32, 47928, 51032, 32, 58, 32, 48, 50, 32, 91, 116, 93]]\<rparr>) \<and>
   sublist [12615, 32, 47928, 51032, 32, 58, 32, 48, 50] (full_text_pr1 \<lparr>item_title = [65], detail_lines = [[12615, 32, 120], [12615, 32, 47928, 51032, 32, 58, 32, 48, 50, 32, 91, 116, 93]]\<rparr>)"
proof -
  have a: "split_items_pr1 [9654, 32, 65, 10, 12615, 32, 120, 10, 12615, 32, 47928, 51032, 32, 58, 32, 48, 50, 32, 91, 116, 93] None = [\<lparr>item_title = [65], detail_lines = [[12615, 32, 120], [12615, 32, 47928, 51032, 32, 58, 32, 48, 50, 32, 91, 116, 93]]\<rparr>]"
    by (simp add: model_defs)
  have b: "trim_noise_lines_pr1 (detail_lines \<lparr>item_title = [65], detail_lines = [[12615, 32, 120], [12615, 32, 47928, 51032, 32, 58, 32, 48, 50, 32, 91, 116, 93]]\<rparr>) = [[12615, 32, 120], [12615, 32, 47928, 51032, 32, 58, 32, 48, 50]]"
    by (simp add: model_defs)
  have c: "strip (title_or_placeholder None) = title_or_placeholder None"
    by (simp add: model_defs)
  from full_text_keeps_title_and_lines [of "\<lparr>item_title = [65], detail_lines = [[66, 58], [67]]\<rparr>" None
       "[9654, 32, 65, 10, 12615, 32, 120, 10, 12615, 32, 47928, 51032, 32, 58, 32, 48, 50, 32, 91, 116, 93]"]
    full_text_keeps_title_and_lines [of "\<lparr>item_title = [32, 65], detail_lines = [[66, 58], [67]]\<rparr>" None
       "[9654, 32, 65, 10, 12615, 32, 120, 10, 12615, 32, 47928, 51032, 32, 58, 32, 48, 50, 32, 91, 116, 93]"] a b c
  show ?thesis by simp
qed

section \<open>Lines that begin with the reference mark\<close>

lemma rstrip_keeps_head:
  assumes "\<not> is_space a"
  shows "\<exists>t. rstrip (a # as) = a # t"
proof -
  from assms dropWhile_snoc [of is_space a "rev as"]
  obtain z where "dropWhile is_space (rev as @ [a]) = z @ [a]" by blast
  then have "rstrip (a # as) = a # rev z"
    by (simp add: rstrip_def rstrip_chars_def)
  then show ?thesis by blast
qed

lemma strip_keeps_head:
  assumes "\<not> is_space a"
  shows "\<exists>t. strip (a # as) = a # t"
proof -
  from assms have "strip (a # as) = rstrip (a # as)"
    by (simp add: strip_def strip_chars_def lstrip_chars_def rstrip_def)
  with rstrip_keeps_head [OF assms] show ?thesis by simp
qed

lemma kv_scan_head:
  assumes "kv_scan (a # as) s = Some (pre, post)" "\<not> is_space a"
  shows "\<exists>t. pre = a # t"
  using assms
proof (induction s arbitrary: as)
  case Nil
  then show ?case by simp
next
  case (Cons c cs)
  from rstrip_keeps_head [OF Cons.prems(2)] obtain t where t: "rstrip (a # as) = a # t" by blast
  show ?case
  proof (cases "kv_scan (a # as) (c # cs) = kv_scan ((a # as) @ [c]) cs")
    case True
    with Cons.prems have "kv_scan (a # (as @ [c])) cs = Some (pre, post)" by simp
    then show ?thesis using Cons.prems(2) by (rule Cons.IH)
  next
    case False
    then have "kv_scan (a # as) (c # cs) = Some (rstrip (a # as), dropWhile is_space cs)"
      using t by (auto split: if_splits)
    with Cons.prems(1) t show ?thesis by simp
  qed
qed

lemma mark_plain: "\<not> is_space 8251 \<and> \<not> zero_width 8251 \<and> \<not> alias_symbol 8251 \<and>
  \<not> any_dash 8251 \<and> \<not> delimiter 8251"
  by (simp add: is_space_def zero_width_def alias_symbol_def any_dash_def delimiter_def)

lemma normalize_key_alias_mark: "normalize_key_alias (8251 # t) = 8251 # normalize_key_alias t"
  using mark_plain
  by (simp add: normalize_key_alias_def remove_spaces_def replace_nbsp_def remove_zero_width_def)

lemma key_alias_mark: "map_of (key_alias v) (8251 # t) = None"
  by (cases v) (simp_all add: key_alias_def key_alias_pr2_def)

lemma kv_classify_mark: "kv_classify v (8251 # r) = None"
proof (cases "kv_match (8251 # r)")
  case None
  then show ?thesis by (simp add: kv_classify_def)
next
  case (Some p)
  obtain pre post where p: "p = (pre, post)" by (cases p)
  from Some p have "kv_scan [8251] r = Some (pre, post)"
    using mark_plain by (simp add: kv_match_def)
  then obtain t where "pre = 8251 # t" using kv_scan_head mark_plain by blast
  moreover obtain t' where "strip (8251 # t) = 8251 # t'"
    using strip_keeps_head mark_plain by blast
  ultimately have "map_of (key_alias v) (normalize_key_alias (strip pre)) = None"
    by (simp add: normalize_key_alias_mark key_alias_mark)
  with Some p show ?thesis by (simp add: kv_classify_def)
qed

lemma py_words_aux_head:
  "\<exists>w ws. py_words_aux (a # as) s = (a # w) # ws"
proof (induction s arbitrary: as)
  case Nil
  then show ?case by simp
next
  case (Cons c cs)
  show ?case
  proof (cases "is_space c")
    case True
    then show ?thesis by simp
  next
    case False
    from Cons [of "as @ [c]"] False show ?thesis by simp
  qed
qed

lemma py_join_head: "\<exists>t. py_join sep ((a # w) # ws) = a # t"
  by (cases ws) auto

lemma prefix_scan_mark: "prefix_scan (key_alias v) ((8251 # w) # ws) n = None"
proof (induction n)
  case 0
  then show ?case by simp
next
  case (Suc n)
  obtain t where "py_join [32] (take (Suc n) ((8251 # w) # ws)) = 8251 # t"
    using py_join_head [of "[32]" 8251 w "take n ws"] by auto
  then have "map_of (key_alias v) (normalize_key_alias (py_join [32] (take (Suc n) ((8251 # w) # ws)))) = None"
    by (simp only: normalize_key_alias_mark key_alias_mark)
  with Suc show ?case by (simp only: prefix_scan.simps option.case)
qed

lemma alias_step_line_mark:
  "alias_step_line v st (8251 # r) =
     st\<lparr>al_fields := append_field (al_fields st) (section_or_content st) (8251 # r)\<rparr>"
proof -
  have m: "strip_leading_marker v (8251 # r) = 8251 # r" by (simp add: strip_leading_marker_def)
  obtain w ws where w: "py_words (8251 # r) = (8251 # w) # ws"
    using py_words_aux_head [of 8251 "[]" r] mark_plain by (auto simp: py_words_def)
  have "prefix_scan (key_alias v) (py_words (8251 # r)) (length (py_words (8251 # r))) = None"
    unfolding w by (rule prefix_scan_mark)
  then show ?thesis
    by (simp add: alias_step_line_def m kv_classify_mark)
qed

text \<open>
  Claim C4. In the alias-table accumulator of pr-1.py and pr-2.py the claim holds: a line
  whose text begins with the reference mark U+203B is never classified, with or without a
  delimiter, and is appended whole to the current section, or to content when none is
  open (the lemma above, repeated in the theorem). The accumulator of junggu.py breaks
  it. At the failing input, the detail lines "ieung daesang : jumin" (a target line) and
  the reference-mark line "munui : 02-1234", the claim has the second line appended to
  the open target section; \<open>parse_detail_lines_to_fields\<close> of junggu.py classifies it
  instead: the line goes to the contact field and contact becomes the current section. A
  reference-mark line with the key "sincheongbangbeop" even locks the method section.
  pr-2.py on the same two lines appends the second to the target field.
\<close>

theorem reference_mark_line_classified:
  "parse_detail_lines_to_fields [[12615, 32, 45824, 49345, 32, 58, 32, 51452, 48124], [8251, 32, 47928, 51032, 32, 58, 32, 48, 50, 45, 49, 50, 51, 52]] Target = Some [12615, 32, 45824, 49345, 32, 58, 32, 51452, 48124] \<and>
   parse_detail_lines_to_fields [[12615, 32, 45824, 49345, 32, 58, 32, 51452, 48124], [8251, 32, 47928, 51032, 32, 58, 32, 48, 50, 45, 49, 50, 51, 52]] Contact = Some [8251, 32, 47928, 51032, 32, 58, 32, 48, 50, 45, 49, 50, 51, 52] \<and>
   current_section (kw_run kw_init [[12615, 32, 45824, 49345, 32, 58, 32, 51452, 48124], [8251, 32, 47928, 51032, 32, 58, 32, 48, 50, 45, 49, 50, 51, 52]]) = Some Contact \<and>
   locked_section (kw_run kw_init [[8251, 32, 49888, 52397, 48169, 48277, 32, 58, 32, 48169, 47928]]) = Some Method \<and>
   alias_step_line v st (8251 # r) =
     st\<lparr>al_fields := append_field (al_fields st) (section_or_content st) (8251 # r)\<rparr> \<and>
   parse_fields_alias PR2 [[12615, 32, 45824, 49345, 32, 58, 32, 51452, 48124], [8251, 32, 47928, 51032, 32, 58, 32, 48, 50, 45, 49, 50, 51, 52]] K_target = Some [51452, 48124, 32, 47, 32, 8251, 32, 47928, 51032, 32, 58, 32, 48, 50, 45, 49, 50, 51, 52] \<and>
   parse_fields_alias PR2 [[12615, 32, 45824, 49345, 32, 58, 32, 51452, 48124], [8251, 32, 47928, 51032, 32, 58, 32, 48, 50, 45, 49, 50, 51, 52]] K_contact = None"
  using alias_step_line_mark [of v st r] by (simp add: model_defs)

end
